theory Spec2Isabelle
  imports Complex_Main "HOL-Library.Sublist"
begin

section \<open>Error values and the rate-limit classifier (services/geminiService.ts)\<close>

text \<open>
  \<^verbatim>\<open>isRateLimitError\<close> takes \<^verbatim>\<open>error: any\<close>. It looks at three things only:
  whether the value is truthy, its \<^verbatim>\<open>status\<close> property, and the result of its
  \<^verbatim>\<open>toString()\<close>. The falsy values of JavaScript are listed one by one; every
  truthy value (an Error object, a plain object, a non-empty string, a non-zero number,
  \<^verbatim>\<open>true\<close>) is represented by its \<^verbatim>\<open>status\<close> property and its string form.
  A value whose \<^verbatim>\<open>toString\<close> is missing or does not return a string is outside
  the model.
\<close>

datatype status_field =
    NoStatus              \<comment> \<open>the property is absent (\<^verbatim>\<open>undefined\<close>)\<close>
  | StatusNum int         \<comment> \<open>a number\<close>
  | StatusOther string    \<comment> \<open>anything else, by its string form; never \<^verbatim>\<open>=== 429\<close>\<close>

datatype err_value =
    EUndefined
  | ENull
  | EFalse
  | EZero
  | ENaN
  | EEmptyString
  | ETruthy status_field string

fun truthy :: "err_value \<Rightarrow> bool" where
  "truthy (ETruthy st s) = True"
| "truthy e = False"

text \<open>The \<^verbatim>\<open>status\<close> property read from a value; primitives have none.\<close>

fun status :: "err_value \<Rightarrow> status_field" where
  "status (ETruthy st s) = st"
| "status e = NoStatus"

text \<open>The string representation of a value (\<^verbatim>\<open>String(e)\<close>).\<close>

fun toString :: "err_value \<Rightarrow> string" where
  "toString EUndefined = ''undefined''"
| "toString ENull = ''null''"
| "toString EFalse = ''false''"
| "toString EZero = ''0''"
| "toString ENaN = ''NaN''"
| "toString EEmptyString = ''''"
| "toString (ETruthy st s) = s"

text \<open>\<^verbatim>\<open>String.prototype.includes\<close>: does \<open>sub\<close> occur in \<open>s\<close> as a contiguous run?\<close>

fun str_includes :: "string \<Rightarrow> string \<Rightarrow> bool" where
  "str_includes [] sub = (sub = [])"
| "str_includes (c # cs) sub = (prefix sub (c # cs) \<or> str_includes cs sub)"

text \<open>
  \<^verbatim>\<open>
  export const isRateLimitError = (error: any): boolean => {
    if (!error) return false;
    const errString = error.toString();
    return (
      error.status === 429 ||
      errString.includes('429') ||
      errString.includes('RESOURCE_EXHAUSTED') ||
      errString.includes('quota')
    );
  };
  \<close>
\<close>

definition isRateLimitError :: "err_value \<Rightarrow> bool" where
  "isRateLimitError error =
     (if \<not> truthy error then False
      else let errString = toString error in
        (status error = StatusNum 429 \<or>
         str_includes errString ''429'' \<or>
         str_includes errString ''RESOURCE_EXHAUSTED'' \<or>
         str_includes errString ''quota''))"

section \<open>The data model (types.ts)\<close>

text \<open>
  A JavaScript \<^verbatim>\<open>number\<close>, as far as the program looks at it: \<^verbatim>\<open>NaN\<close>, the two
  infinities, or a finite value. Every finite double is a rational; \<^verbatim>\<open>-0\<close> and
  \<^verbatim>\<open>0\<close> are the same value \<open>Fin 0\<close> (they agree under \<^verbatim>\<open>Math.abs\<close>, \<^verbatim>\<open>< 0\<close>
  and \<^verbatim>\<open>isNaN\<close>, the only operations used on amounts).
\<close>

datatype js_number = NaN | NegInf | PosInf | Fin rat

fun isNaN :: "js_number \<Rightarrow> bool" where
  "isNaN NaN = True"
| "isNaN x = False"

text \<open>\<^verbatim>\<open>Math.abs\<close>.\<close>

fun Math_abs :: "js_number \<Rightarrow> js_number" where
  "Math_abs NaN = NaN"
| "Math_abs NegInf = PosInf"
| "Math_abs PosInf = PosInf"
| "Math_abs (Fin r) = Fin \<bar>r\<bar>"

text \<open>\<^verbatim>\<open>x < 0\<close>; a comparison with \<^verbatim>\<open>NaN\<close> is false.\<close>

fun lt_zero :: "js_number \<Rightarrow> bool" where
  "lt_zero NaN = False"
| "lt_zero NegInf = True"
| "lt_zero PosInf = False"
| "lt_zero (Fin r) = (r < 0)"

text \<open>\<^verbatim>\<open>0 <= x\<close>, the non-negative numbers.\<close>

fun nonneg :: "js_number \<Rightarrow> bool" where
  "nonneg NaN = False"
| "nonneg NegInf = False"
| "nonneg PosInf = True"
| "nonneg (Fin r) = (0 \<le> r)"

datatype TransactionType = INCOME | EXPENSE

text \<open>
  \<^verbatim>\<open>
  export interface Transaction {
    id: string; date: string; description: string; amount: number;
    type: TransactionType; category: string; isAnomaly?: boolean;
  }
  \<close>
  The fields \<^verbatim>\<open>id\<close> and \<^verbatim>\<open>type\<close> are \<open>tx_id\<close> and \<open>tx_type\<close> here;
  the optional \<^verbatim>\<open>isAnomaly\<close> is \<open>None\<close> when absent.
\<close>

record transaction =
  tx_id :: string
  date :: string
  description :: string
  amount :: js_number
  tx_type :: TransactionType
  category :: string
  isAnomaly :: "bool option"

text \<open>One record of the categorize response: \<^verbatim>\<open>{ id, category, isAnomaly }\<close>.\<close>

record cat_result =
  r_id :: string
  r_category :: string
  r_isAnomaly :: bool

definition CATEGORIES :: "string list" where
  "CATEGORIES =
     [''Food & Dining'', ''Transportation'', ''Housing'', ''Utilities'', ''Entertainment'',
      ''Shopping'', ''Healthcare'', ''Income'', ''Uncategorized'']"

section \<open>Array and string helpers of the language\<close>

text \<open>
  \<^verbatim>\<open>Array.prototype.slice(start, end)\<close>: a negative index counts from the end, both
  are clamped to the array, and a missing \<^verbatim>\<open>end\<close> is the length.
\<close>

definition slice :: "int \<Rightarrow> int option \<Rightarrow> 'a list \<Rightarrow> 'a list" where
  "slice start fin xs =
     (let len = int (length xs);
          k = (if start < 0 then max (len + start) 0 else min start len);
          final = (case fin of
                     None \<Rightarrow> len
                   | Some e \<Rightarrow> if e < 0 then max (len + e) 0 else min e len)
      in take (nat (final - k)) (drop (nat k) xs))"

text \<open>\<^verbatim>\<open>Array.prototype.join(sep)\<close> on an array of strings.\<close>

fun join :: "string \<Rightarrow> string list \<Rightarrow> string" where
  "join sep [] = []"
| "join sep [x] = x"
| "join sep (x # y # ys) = x @ sep @ join sep (y # ys)"

text \<open>\<^verbatim>\<open>Array.prototype.find\<close>: the first element that satisfies the predicate.\<close>

fun find_first :: "('a \<Rightarrow> bool) \<Rightarrow> 'a list \<Rightarrow> 'a option" where
  "find_first P [] = None"
| "find_first P (x # xs) = (if P x then Some x else find_first P xs)"

text \<open>
  \<^verbatim>\<open>String.prototype.split(sep)\<close> with a one-character separator: the pieces
  between the separators, one more than there are separators (so the empty string
  gives one empty piece).
\<close>

fun split_on :: "char \<Rightarrow> string \<Rightarrow> string list" where
  "split_on sep [] = [[]]"
| "split_on sep (c # cs) =
     (if c = sep then [] # split_on sep cs
      else (case split_on sep cs of
              [] \<Rightarrow> [[c]]
            | w # ws \<Rightarrow> (c # w) # ws))"

text \<open>
  \<^verbatim>\<open>String.prototype.trim()\<close>, for the white space of ASCII (tab, line feed,
  vertical tab, form feed, carriage return, space).
\<close>

definition is_ws :: "char \<Rightarrow> bool" where
  "is_ws c = (c \<in> set [CHR 0x09, CHR 0x0A, CHR 0x0B, CHR 0x0C, CHR 0x0D, CHR 0x20])"

definition trim :: "string \<Rightarrow> string" where
  "trim s = rev (dropWhile is_ws (rev (dropWhile is_ws s)))"

text \<open>The decimal string of a natural number (\<^verbatim>\<open>Number.prototype.toString\<close> on it).\<close>

fun show_nat :: "nat \<Rightarrow> string" where
  "show_nat n =
     (if n < 10 then [''0123456789'' ! n]
      else show_nat (n div 10) @ [''0123456789'' ! (n mod 10)])"

declare show_nat.simps [simp del]

text \<open>
  \<^verbatim>\<open>parseFloat\<close> is a parameter of the importer below. For concrete inputs this is
  a reader of the decimal literals it accepts: leading white space, a sign, digits with
  an optional fraction, an optional exponent, or \<^verbatim>\<open>Infinity\<close>; the longest such prefix
  counts and anything else is \<^verbatim>\<open>NaN\<close>. It returns the exact value of the literal,
  without the rounding to a double.
\<close>

fun read_digits :: "string \<Rightarrow> nat \<Rightarrow> nat \<Rightarrow> nat \<times> nat \<times> string" where
  "read_digits [] v n = (v, n, [])"
| "read_digits (c # cs) v n =
     (if c \<in> set ''0123456789''
      then read_digits cs (10 * v + length (takeWhile (\<lambda>d. d \<noteq> c) ''0123456789'')) (n + 1)
      else (v, n, c # cs))"

definition read_sign :: "string \<Rightarrow> bool \<times> string" where
  "read_sign s =
     (case s of
        [] \<Rightarrow> (False, [])
      | c # cs \<Rightarrow>
          if c = CHR ''-'' then (True, cs)
          else if c = CHR ''+'' then (False, cs)
          else (False, s))"

definition read_exponent :: "string \<Rightarrow> int" where
  "read_exponent s =
     (case s of
        [] \<Rightarrow> 0
      | c # r \<Rightarrow>
          if c = CHR ''e'' \<or> c = CHR ''E'' then
            (let (eneg, r2) = read_sign r;
                 (ev, ne, r3) = read_digits r2 0 0
             in if ne = 0 then 0 else if eneg then - int ev else int ev)
          else 0)"

definition parseFloat_exact :: "string \<Rightarrow> js_number" where
  "parseFloat_exact s =
     (let (neg, s2) = read_sign (dropWhile is_ws s) in
      if prefix ''Infinity'' s2 then (if neg then NegInf else PosInf)
      else
        (let (ip, ni, s3) = read_digits s2 0 0;
             (fp, nf, s4) = (case s3 of
                               [] \<Rightarrow> (0, 0, s3)
                             | c # r \<Rightarrow> if c = CHR ''.'' then read_digits r 0 0 else (0, 0, s3))
         in if ni + nf = 0 then NaN
            else
              (let mant = (of_nat ip + of_nat fp / 10 ^ nf :: rat);
                   ex = read_exponent s4;
                   v = (if 0 \<le> ex then mant * 10 ^ nat ex else mant / 10 ^ nat (- ex))
               in Fin (if neg then - v else v))))"

section \<open>The gateway operations (services/geminiService.ts)\<close>

text \<open>
  The gateway calls code outside the repository: the remote service and
  \<^verbatim>\<open>JSON.parse\<close>. Each such call is given by its outcome: it throws a value, or it
  returns one.
\<close>

datatype 'a outcome = Throws err_value | Returns 'a

text \<open>The only error the gateway raises itself: \<^verbatim>\<open>new Error("RATE_LIMIT")\<close>.\<close>

datatype gateway_error = RATE_LIMIT

text \<open>
  The data of each transaction that the categorize prompt embeds:
  \<^verbatim>\<open>transactions.map(t => ({ id: t.id, description: t.description, amount: t.amount, type: t.type }))\<close>.
\<close>

definition categorizeRequest ::
  "transaction list \<Rightarrow> (string \<times> string \<times> js_number \<times> TransactionType) list" where
  "categorizeRequest transactions =
     map (\<lambda>t. (tx_id t, description t, amount t, tx_type t)) transactions"

text \<open>
  \<^verbatim>\<open>
  try {
    const response = await ai.models.generateContent({ ... });
    const jsonText = response.text;
    if (!jsonText) return [];
    return JSON.parse(jsonText);
  } catch (error: any) {
    console.error("Failed to categorize transactions:", error);
    if (isRateLimitError(error)) {
        throw new Error("RATE_LIMIT");
    }
    return [];
  }
  \<close>
  \<open>response\<close> is the outcome of the remote call for the prompt built from
  \<open>transactions\<close>, with the \<^verbatim>\<open>text\<close> of the response (\<open>None\<close> when it is
  \<^verbatim>\<open>undefined\<close>); \<open>parsed\<close> is the outcome of \<^verbatim>\<open>JSON.parse\<close> on that text, read
  only when the text is not empty. Both the call and the parse are inside the
  \<^verbatim>\<open>try\<close>, so one handler receives the errors of both.
\<close>

definition categorize_catch :: "err_value \<Rightarrow> gateway_error + cat_result list" where
  "categorize_catch error = (if isRateLimitError error then Inl RATE_LIMIT else Inr [])"

definition categorizeTransactions ::
  "transaction list \<Rightarrow> string option outcome \<Rightarrow> cat_result list outcome \<Rightarrow>
     gateway_error + cat_result list" where
  "categorizeTransactions transactions response parsed =
     (case response of
        Throws error \<Rightarrow> categorize_catch error
      | Returns jsonText \<Rightarrow>
          (if jsonText = None \<or> jsonText = Some [] then Inr []
           else (case parsed of
                   Throws error \<Rightarrow> categorize_catch error
                 | Returns results \<Rightarrow> Inr results)))"

text \<open>
  The summary of \<^verbatim>\<open>getSpendingInsights\<close>:
  \<^verbatim>\<open>transactions.slice(0, 50).map(t => `${t.date}: ${t.description} ($${t.amount}) - ${t.category}`).join('\n')\<close>.
  \<open>numToString\<close> is the conversion of a number to a string that the template applies.
\<close>

definition insightLine :: "(js_number \<Rightarrow> string) \<Rightarrow> transaction \<Rightarrow> string" where
  "insightLine numToString t =
     date t @ '': '' @ description t @ '' ($'' @ numToString (amount t) @ '') - '' @ category t"

definition insightLines :: "(js_number \<Rightarrow> string) \<Rightarrow> transaction list \<Rightarrow> string list" where
  "insightLines numToString transactions =
     map (insightLine numToString) (slice 0 (Some 50) transactions)"

definition insightSummary :: "(js_number \<Rightarrow> string) \<Rightarrow> transaction list \<Rightarrow> string" where
  "insightSummary numToString transactions =
     join ''\<newline>'' (insightLines numToString transactions)"

definition insightPrompt :: "(js_number \<Rightarrow> string) \<Rightarrow> transaction list \<Rightarrow> string" where
  "insightPrompt numToString transactions =
     ''\<newline>    Analyze these recent financial transactions and provide a short, bulleted list (max 3 points) of key insights. '' @
     ''\<newline>    Focus on spending trends, potential savings, or unusual activity.'' @
     ''\<newline>    Keep it friendly and concise.'' @
     ''\<newline>    '' @
     ''\<newline>    Data:'' @
     ''\<newline>    '' @ insightSummary numToString transactions @
     ''\<newline>  ''"

text \<open>
  \<^verbatim>\<open>
  try {
    const response = await ai.models.generateContent({ model, contents: prompt });
    return response.text || "No insights available at this time.";
  } catch (error: any) {
    console.error("Failed to get insights:", error);
    if (isRateLimitError(error)) {
       throw new Error("RATE_LIMIT");
    }
    return "Could not generate insights at this time. Please try again later.";
  }
  \<close>
  \<open>generateContent\<close> is the remote service, from the prompt to the outcome of the
  call with the \<^verbatim>\<open>text\<close> of the response.
\<close>

definition getSpendingInsights ::
  "(js_number \<Rightarrow> string) \<Rightarrow> (string \<Rightarrow> string option outcome) \<Rightarrow> transaction list \<Rightarrow>
     gateway_error + string" where
  "getSpendingInsights numToString generateContent transactions =
     (let prompt = insightPrompt numToString transactions in
      case generateContent prompt of
        Returns text_opt \<Rightarrow>
          (case text_opt of
             None \<Rightarrow> Inr ''No insights available at this time.''
           | Some t \<Rightarrow> if t = [] then Inr ''No insights available at this time.'' else Inr t)
      | Throws error \<Rightarrow>
          (if isRateLimitError error then Inl RATE_LIMIT
           else Inr ''Could not generate insights at this time. Please try again later.''))"

section \<open>The transaction list (components/TransactionList.tsx)\<close>

text \<open>
  The state of the component that its handlers write: the transaction store (owned by
  \<^verbatim>\<open>App\<close>, written through \<^verbatim>\<open>setTransactions\<close>) and three of its own variables.
\<close>

record list_state =
  transactions :: "transaction list"
  isAutoCategorizing :: bool
  editingId :: "string option"
  errorMsg :: "string option"

text \<open>
  The body of \<^verbatim>\<open>lines.slice(1).forEach((line, idx) => ...)\<close>, pushing onto
  \<^verbatim>\<open>newTransactions\<close>:
  \<^verbatim>\<open>
  const parts = line.split(',');
  if (parts.length >= 3) {
    const amount = parseFloat(parts[2]);
    if (!isNaN(amount)) {
      newTransactions.push({
        id: Date.now().toString() + idx,
        date: parts[0]?.trim() || new Date().toISOString().split('T')[0],
        description: parts[1]?.trim() || 'Unknown',
        amount: Math.abs(amount),
        type: amount < 0 ? TransactionType.EXPENSE : TransactionType.INCOME,
        category: 'Uncategorized'
      });
    }
  }
  \<close>
  \<open>parseFloat\<close> is the language's function of that name; \<open>clock idx\<close> is what
  \<^verbatim>\<open>Date.now()\<close> returns and \<open>today idx\<close> the ISO date of \<^verbatim>\<open>new Date()\<close> while the
  line of index \<open>idx\<close> is processed.
\<close>

fun csv_forEach ::
  "(string \<Rightarrow> js_number) \<Rightarrow> (nat \<Rightarrow> nat) \<Rightarrow> (nat \<Rightarrow> string) \<Rightarrow>
     nat \<Rightarrow> string list \<Rightarrow> transaction list \<Rightarrow> transaction list" where
  "csv_forEach parseFloat clock today idx [] newTransactions = newTransactions"
| "csv_forEach parseFloat clock today idx (line # rest) newTransactions =
     (let parts = split_on CHR '','' line in
      if length parts \<ge> 3 then
        (let amount = parseFloat (parts ! 2) in
         if \<not> isNaN amount then
           csv_forEach parseFloat clock today (idx + 1) rest
             (newTransactions @
               [\<lparr>tx_id = show_nat (clock idx) @ show_nat idx,
                 date = (if trim (parts ! 0) \<noteq> [] then trim (parts ! 0) else today idx),
                 description = (if trim (parts ! 1) \<noteq> [] then trim (parts ! 1) else ''Unknown''),
                 amount = Math_abs amount,
                 tx_type = (if lt_zero amount then EXPENSE else INCOME),
                 category = ''Uncategorized'',
                 isAnomaly = None\<rparr>])
         else csv_forEach parseFloat clock today (idx + 1) rest newTransactions)
      else csv_forEach parseFloat clock today (idx + 1) rest newTransactions)"

text \<open>
  The \<^verbatim>\<open>onload\<close> callback of \<^verbatim>\<open>handleFileUpload\<close> up to the write to the store:
  \<^verbatim>\<open>const lines = text.split('\n'); ... lines.slice(1).forEach(...)\<close>.
\<close>

definition csv_import ::
  "(string \<Rightarrow> js_number) \<Rightarrow> (nat \<Rightarrow> nat) \<Rightarrow> (nat \<Rightarrow> string) \<Rightarrow> string \<Rightarrow> transaction list" where
  "csv_import parseFloat clock today text_in =
     (let lines = split_on CHR 0x0A text_in in
      csv_forEach parseFloat clock today 0 (slice 1 None lines) [])"

text \<open>
  \<^verbatim>\<open>handleFileUpload\<close>: without a file nothing happens; with one,
  \<^verbatim>\<open>setTransactions(prev => [...prev, ...newTransactions])\<close>. \<open>file\<close> is the text of
  the chosen file.
\<close>

definition handleFileUpload ::
  "(string \<Rightarrow> js_number) \<Rightarrow> (nat \<Rightarrow> nat) \<Rightarrow> (nat \<Rightarrow> string) \<Rightarrow> string option \<Rightarrow>
     list_state \<Rightarrow> list_state" where
  "handleFileUpload parseFloat clock today file st =
     (case file of
        None \<Rightarrow> st
      | Some text_in \<Rightarrow>
          st\<lparr>transactions := transactions st @ csv_import parseFloat clock today text_in\<rparr>)"

text \<open>
  The merge of a categorize response into the store:
  \<^verbatim>\<open>
  prev.map(t => {
    const match = results.find(r => r.id === t.id);
    if (match) {
      return { ...t, category: match.category, isAnomaly: match.isAnomaly };
    }
    return t;
  })
  \<close>
\<close>

definition mergeResults :: "cat_result list \<Rightarrow> transaction list \<Rightarrow> transaction list" where
  "mergeResults results prev =
     map (\<lambda>t. case find_first (\<lambda>r. r_id r = tx_id t) results of
                 Some match \<Rightarrow> t\<lparr>category := r_category match, isAnomaly := Some (r_isAnomaly match)\<rparr>
               | None \<Rightarrow> t) prev"

text \<open>
  \<^verbatim>\<open>
  const uncategorized = transactions.filter(t => t.category === 'Uncategorized' || !t.category);
  if (uncategorized.length === 0) return;
  setIsAutoCategorizing(true);
  setErrorMsg(null);
  try {
    const results = await categorizeTransactions(uncategorized);
    setTransactions(prev => prev.map(...));
  } catch (e: any) {
    if (e.message === 'RATE_LIMIT' || isRateLimitError(e)) {
      setErrorMsg("Quota exceeded. Please wait a minute.");
    } else {
      setErrorMsg("Failed to categorize. Try again later.");
    }
  } finally {
    setIsAutoCategorizing(false);
  }
  \<close>
  The gateway raises \<open>RATE_LIMIT\<close> only, whose message is \<^verbatim>\<open>'RATE_LIMIT'\<close>, so the
  handler takes its first branch.
\<close>

definition runAutoCategorization ::
  "string option outcome \<Rightarrow> cat_result list outcome \<Rightarrow> list_state \<Rightarrow> list_state" where
  "runAutoCategorization response parsed st =
     (let uncategorized =
            filter (\<lambda>t. category t = ''Uncategorized'' \<or> category t = []) (transactions st) in
      if length uncategorized = 0 then st
      else
        (let st1 = st\<lparr>isAutoCategorizing := True, errorMsg := None\<rparr>;
             st2 = (case categorizeTransactions uncategorized response parsed of
                      Inr results \<Rightarrow>
                        st1\<lparr>transactions := mergeResults results (transactions st1)\<rparr>
                    | Inl RATE_LIMIT \<Rightarrow>
                        st1\<lparr>errorMsg := Some ''Quota exceeded. Please wait a minute.''\<rparr>)
         in st2\<lparr>isAutoCategorizing := False\<rparr>))"

text \<open>
  \<^verbatim>\<open>
  const handleCategoryChange = (id: string, newCategory: string) => {
    setTransactions(prev => prev.map(t => t.id === id ? { ...t, category: newCategory } : t));
    setEditingId(null);
  };
  \<close>
\<close>

definition handleCategoryChange :: "string \<Rightarrow> string \<Rightarrow> list_state \<Rightarrow> list_state" where
  "handleCategoryChange ident newCategory st =
     st\<lparr>transactions :=
          map (\<lambda>t. if tx_id t = ident then t\<lparr>category := newCategory\<rparr> else t) (transactions st),
        editingId := None\<rparr>"

text \<open>
  The rule of the importer in the words of its description: a line is accepted when it
  has at least three comma-separated fields and the third is numeric; an accepted line
  gives the absolute value of its amount, and \<open>EXPENSE\<close> for a negative amount,
  \<open>INCOME\<close> otherwise.
\<close>

definition spec_row_accepted :: "(string \<Rightarrow> js_number) \<Rightarrow> string \<Rightarrow> bool" where
  "spec_row_accepted parseFloat line =
     (3 \<le> length (split_on CHR '','' line) \<and> \<not> isNaN (parseFloat (split_on CHR '','' line ! 2)))"

definition spec_row_entry :: "(string \<Rightarrow> js_number) \<Rightarrow> string \<Rightarrow> js_number \<times> TransactionType" where
  "spec_row_entry parseFloat line =
     (Math_abs (parseFloat (split_on CHR '','' line ! 2)),
      if lt_zero (parseFloat (split_on CHR '','' line ! 2)) then EXPENSE else INCOME)"

text \<open>The invariant of the store: every amount is a non-negative number.\<close>

definition amounts_nonneg :: "transaction list \<Rightarrow> bool" where
  "amounts_nonneg ts = list_all (\<lambda>t. nonneg (amount t)) ts"

section \<open>The seed data (App.tsx)\<close>

text \<open>
  \<^verbatim>\<open>INITIAL_DATA\<close>, the store when nothing has been saved. An amount written as a
  decimal literal is given by the value of the literal (\<^verbatim>\<open>124.50\<close> is \<open>249 / 2\<close>).
\<close>

definition INITIAL_DATA :: "transaction list" where
  "INITIAL_DATA =
     [\<lparr>tx_id = ''1'', date = ''2023-11-01'', description = ''Salary Deposit'',
        amount = Fin 4500, tx_type = INCOME, category = ''Income'', isAnomaly = None\<rparr>,
      \<lparr>tx_id = ''2'', date = ''2023-11-03'', description = ''Whole Foods Market'',
        amount = Fin (249 / 2), tx_type = EXPENSE, category = ''Food & Dining'', isAnomaly = None\<rparr>,
      \<lparr>tx_id = ''3'', date = ''2023-11-05'', description = ''Uber Trip'',
        amount = Fin 24, tx_type = EXPENSE, category = ''Transportation'', isAnomaly = None\<rparr>,
      \<lparr>tx_id = ''4'', date = ''2023-11-05'', description = ''Netflix Subscription'',
        amount = Fin (1599 / 100), tx_type = EXPENSE, category = ''Entertainment'', isAnomaly = None\<rparr>,
      \<lparr>tx_id = ''5'', date = ''2023-11-07'', description = ''Electric Bill'',
        amount = Fin (726 / 5), tx_type = EXPENSE, category = ''Utilities'', isAnomaly = None\<rparr>,
      \<lparr>tx_id = ''6'', date = ''2023-11-10'', description = ''Luxury Bag Store'',
        amount = Fin 2500, tx_type = EXPENSE, category = ''Shopping'', isAnomaly = Some True\<rparr>,
      \<lparr>tx_id = ''7'', date = ''2023-11-12'', description = ''Coffee Shop'',
        amount = Fin (13 / 2), tx_type = EXPENSE, category = ''Food & Dining'', isAnomaly = None\<rparr>,
      \<lparr>tx_id = ''8'', date = ''2023-11-15'', description = ''Rent Payment'',
        amount = Fin 1800, tx_type = EXPENSE, category = ''Housing'', isAnomaly = None\<rparr>,
      \<lparr>tx_id = ''9'', date = ''2023-11-16'', description = ''Unknown Charge 9928'',
        amount = Fin (4999 / 100), tx_type = EXPENSE, category = ''Uncategorized'', isAnomaly = None\<rparr>]"

section \<open>The chat view (components/ChatBot.tsx)\<close>

datatype chat_role = user | model

text \<open>
  \<^verbatim>\<open>
  export interface ChatMessage { id: string; role: 'user' | 'model'; text: string; timestamp: number; }
  \<close>
  The fields \<^verbatim>\<open>id\<close> and \<^verbatim>\<open>text\<close> are \<open>msg_id\<close> and \<open>msg_text\<close> here.
\<close>

record chat_message =
  msg_id :: string
  role :: chat_role
  msg_text :: string
  timestamp :: nat

record chat_state =
  messages :: "chat_message list"
  inputValue :: string
  isStreaming :: bool

text \<open>
  The initial state of the view:
  \<^verbatim>\<open>
  useState<ChatMessage[]>([{ id: '1', role: 'model', text: "Hello! I'm your Gemini FinBot. ...", timestamp: Date.now() }]);
  useState(''); useState(false);
  \<close>
  \<open>t0\<close> is the reading of \<^verbatim>\<open>Date.now()\<close> when the view is created.
\<close>

definition initial_chat :: "nat \<Rightarrow> chat_state" where
  "initial_chat t0 =
     \<lparr>messages =
        [\<lparr>msg_id = ''1'', role = model,
          msg_text = ''Hello! I'm your Gemini FinBot. Ask me anything about budgeting strategies, saving tips, or financial concepts.'',
          timestamp = t0\<rparr>],
      inputValue = [],
      isStreaming = False\<rparr>"

text \<open>
  What a streaming call does: it yields chunks, each with its \<^verbatim>\<open>text\<close> (\<open>None\<close>
  when \<^verbatim>\<open>undefined\<close>), and then either completes or throws. A call that throws
  before its first chunk has no chunks.
\<close>

record chat_stream =
  chunks :: "string option list"
  failure :: "err_value option"

text \<open>
  The update of one chunk:
  \<^verbatim>\<open>setMessages(prev => prev.map(msg => msg.id === botMsgId ? { ...msg, text: fullText } : msg))\<close>.
\<close>

definition stream_update :: "string \<Rightarrow> string \<Rightarrow> chat_message list \<Rightarrow> chat_message list" where
  "stream_update botMsgId fullText prev =
     map (\<lambda>msg. if msg_id msg = botMsgId then msg\<lparr>msg_text := fullText\<rparr> else msg) prev"

text \<open>\<^verbatim>\<open>c.text || ''\<close>: the text of a chunk, empty when it has none.\<close>

definition chunk_text :: "string option \<Rightarrow> string" where
  "chunk_text c = (case c of None \<Rightarrow> [] | Some t \<Rightarrow> t)"

text \<open>
  \<^verbatim>\<open>
  let fullText = '';
  for await (const chunk of streamResult) {
    const c = chunk as GenerateContentResponse;
    const textChunk = c.text || '';
    fullText += textChunk;
    setMessages(prev => prev.map(...));
  }
  \<close>
  \<^verbatim>\<open>setMessages\<close> only queues its updater; React runs the queued updaters at its
  next render, and the updater of a chunk reads the variable \<^verbatim>\<open>fullText\<close> when it
  runs. \<open>stream_loop\<close> gives, for each chunk, the list that a render after that chunk
  commits. Whether React renders there, before the next chunk arrives, is not decided by
  this code: the queue and the renders are modelled by \<open>stream_run\<close> below. The last
  list is the state when the loop has ended, whenever the renders took place.
\<close>

fun stream_loop ::
  "string \<Rightarrow> string \<Rightarrow> string option list \<Rightarrow> chat_message list \<Rightarrow> chat_message list list" where
  "stream_loop botMsgId fullText [] prev = []"
| "stream_loop botMsgId fullText (c # cs) prev =
     (let textChunk = chunk_text c;
          fullText' = fullText @ textChunk;
          next = stream_update botMsgId fullText' prev
      in next # stream_loop botMsgId fullText' cs next)"

text \<open>
  \<^verbatim>\<open>
  let errorText = "Sorry, I encountered an error. Please try again.";
  if (isRateLimitError(error)) {
    errorText = "<U+26A0 U+FE0F> usage limits exceeded. Please wait a minute before trying again.";
  }
  \<close>
  The warning sign is written as its bytes in UTF-8.
\<close>

definition errorText_of :: "err_value \<Rightarrow> string" where
  "errorText_of error =
     (if isRateLimitError error
      then [CHR 0xE2, CHR 0x9A, CHR 0xA0, CHR 0xEF, CHR 0xB8, CHR 0x8F] @
           '' usage limits exceeded. Please wait a minute before trying again.''
      else ''Sorry, I encountered an error. Please try again.'')"

text \<open>
  \<^verbatim>\<open>
  setMessages(prev => {
    const lastMsg = prev[prev.length - 1];
    if (lastMsg.role === 'model' && lastMsg.text === '') {
       return [...prev.slice(0, -1), { id: Date.now().toString(), role: 'model', text: errorText, timestamp: Date.now() }];
    }
    return [...prev, { id: Date.now().toString(), role: 'model', text: errorText, timestamp: Date.now() }];
  });
  \<close>
  On an empty list \<^verbatim>\<open>lastMsg\<close> is \<^verbatim>\<open>undefined\<close> and reading its \<^verbatim>\<open>role\<close> throws:
  the result is \<open>None\<close>. \<open>t1\<close> and \<open>t2\<close> are the two readings of \<^verbatim>\<open>Date.now()\<close>.
\<close>

definition error_update ::
  "string \<Rightarrow> nat \<Rightarrow> nat \<Rightarrow> chat_message list \<Rightarrow> chat_message list option" where
  "error_update errorText t1 t2 prev =
     (if length prev = 0 then None
      else
        (let lastMsg = prev ! (length prev - 1) in
         if role lastMsg = model \<and> msg_text lastMsg = [] then
           Some (slice 0 (Some (- 1)) prev @
                 [\<lparr>msg_id = show_nat t1, role = model, msg_text = errorText, timestamp = t2\<rparr>])
         else
           Some (prev @
                 [\<lparr>msg_id = show_nat t1, role = model, msg_text = errorText, timestamp = t2\<rparr>])))"

text \<open>
  \<^verbatim>\<open>handleSend\<close>, as the lists that a render after each of its updates commits: the
  user message is appended, then the empty model message, then one update for each
  chunk, then the update of the \<^verbatim>\<open>catch\<close> when the stream throws. The last list is
  the state when the handler has finished. \<open>clock k\<close> is the \<open>k\<close>-th reading of
  \<^verbatim>\<open>Date.now()\<close> in the handler.
  \<^verbatim>\<open>
  if (!inputValue.trim() || isStreaming) return;
  const userMsg: ChatMessage = { id: Date.now().toString(), role: 'user', text: inputValue, timestamp: Date.now() };
  setMessages(prev => [...prev, userMsg]);
  setInputValue('');
  setIsStreaming(true);
  try {
    const botMsgId = (Date.now() + 1).toString();
    setMessages(prev => [...prev, { id: botMsgId, role: 'model', text: '', timestamp: Date.now() }]);
    const streamResult = await chatSessionRef.current.sendMessageStream({ message: userMsg.text });
    ...
  } catch (error: any) { ... } finally { setIsStreaming(false); }
  \<close>
\<close>

definition userMsg_of :: "(nat \<Rightarrow> nat) \<Rightarrow> chat_state \<Rightarrow> chat_message" where
  "userMsg_of clock st =
     \<lparr>msg_id = show_nat (clock 0), role = user, msg_text = inputValue st, timestamp = clock 1\<rparr>"

definition botMsgId_of :: "(nat \<Rightarrow> nat) \<Rightarrow> string" where
  "botMsgId_of clock = show_nat (clock 2 + 1)"

definition handleSend_messages ::
  "(nat \<Rightarrow> nat) \<Rightarrow> chat_stream \<Rightarrow> chat_state \<Rightarrow> chat_message list list" where
  "handleSend_messages clock stream st =
     (if trim (inputValue st) = [] \<or> isStreaming st then []
      else
        (let userMsg = userMsg_of clock st;
             m1 = messages st @ [userMsg];
             botMsgId = botMsgId_of clock;
             m2 = m1 @ [\<lparr>msg_id = botMsgId, role = model, msg_text = [], timestamp = clock 3\<rparr>];
             updates = stream_loop botMsgId [] (chunks stream) m2;
             m3 = last (m2 # updates)
         in [m1, m2] @ updates @
            (case failure stream of
               None \<Rightarrow> []
             | Some error \<Rightarrow>
                 (case error_update (errorText_of error) (clock 4) (clock 5) m3 of
                    None \<Rightarrow> []
                  | Some m4 \<Rightarrow> [m4]))))"

text \<open>The state when \<^verbatim>\<open>handleSend\<close> has finished.\<close>

definition handleSend :: "(nat \<Rightarrow> nat) \<Rightarrow> chat_stream \<Rightarrow> chat_state \<Rightarrow> chat_state" where
  "handleSend clock stream st =
     (if trim (inputValue st) = [] \<or> isStreaming st then st
      else st\<lparr>messages := last (handleSend_messages clock stream st),
              inputValue := [],
              isStreaming := False\<rparr>)"

subsection \<open>The update queue and the renders\<close>

text \<open>
  The two updaters that \<^verbatim>\<open>handleSend\<close> queues on a stream that completes:
  \<^verbatim>\<open>prev => [...prev, msg]\<close> and
  \<^verbatim>\<open>prev => prev.map(msg => msg.id === botMsgId ? { ...msg, text: fullText } : msg)\<close>.
  The second closes over the constant \<^verbatim>\<open>botMsgId\<close> and over the variable
  \<^verbatim>\<open>fullText\<close> (\<^verbatim>\<open>let fullText = ''\<close>, assigned in the loop), whose value it reads
  when it runs.
\<close>

datatype updater = Append chat_message | SetText string

fun run_updater :: "string \<Rightarrow> updater \<Rightarrow> chat_message list \<Rightarrow> chat_message list" where
  "run_updater fullText (Append msg) prev = prev @ [msg]"
| "run_updater fullText (SetText botMsgId) prev = stream_update botMsgId fullText prev"

text \<open>
  The state \<^verbatim>\<open>messages\<close> as React holds it: the committed value, which is what the
  page shows, and the updaters queued since the last render.
\<close>

record react_messages =
  committed :: "chat_message list"
  pending :: "updater list"

definition setMessages :: "updater \<Rightarrow> react_messages \<Rightarrow> react_messages" where
  "setMessages u r = r\<lparr>pending := pending r @ [u]\<rparr>"

text \<open>
  A render runs the queued updaters in order, each on the result of the one before;
  \<open>fullText\<close> is the value of the variable at that time.
\<close>

definition render :: "string \<Rightarrow> react_messages \<Rightarrow> react_messages" where
  "render fullText r =
     \<lparr>committed = foldl (\<lambda>prev u. run_updater fullText u prev) (committed r) (pending r),
      pending = []\<rparr>"

text \<open>
  The loop over the chunks with the queue. The loop body runs without interruption;
  React can render only while the loop waits for the next chunk. \<open>sched\<close> says, chunk
  by chunk, whether it does (a schedule that is too short means no further render
  during the loop). The result is the final \<^verbatim>\<open>fullText\<close>, the state of React, and the
  lists shown so far, in order.
\<close>

fun stream_run ::
  "string \<Rightarrow> string \<Rightarrow> string option list \<Rightarrow> bool list \<Rightarrow> react_messages \<Rightarrow>
     chat_message list list \<Rightarrow> string \<times> react_messages \<times> chat_message list list" where
  "stream_run botMsgId fullText [] sched r shown = (fullText, r, shown)"
| "stream_run botMsgId fullText (c # cs) sched r shown =
     (let textChunk = chunk_text c;
          fullText' = fullText @ textChunk;
          r1 = setMessages (SetText botMsgId) r;
          renders_now = (case sched of [] \<Rightarrow> False | x # xs \<Rightarrow> x);
          sched' = (case sched of [] \<Rightarrow> [] | x # xs \<Rightarrow> xs)
      in if renders_now
         then (let r2 = render fullText' r1
               in stream_run botMsgId fullText' cs sched' r2 (shown @ [committed r2]))
         else stream_run botMsgId fullText' cs sched' r1 shown)"

text \<open>
  \<^verbatim>\<open>handleSend\<close> on a stream that yields the chunks \<open>cs\<close> and completes, as the lists
  that the page shows one after the other. The two appends are queued before the
  handler waits for the first time; \<open>early\<close> says whether React renders during that wait,
  before the first chunk. When the loop has ended \<^verbatim>\<open>setIsStreaming(false)\<close> is queued
  and the render that follows runs whatever is still pending.
\<close>

definition handleSend_screens ::
  "(nat \<Rightarrow> nat) \<Rightarrow> bool \<Rightarrow> bool list \<Rightarrow> string option list \<Rightarrow> chat_state \<Rightarrow>
     chat_message list list" where
  "handleSend_screens clock early sched cs st =
     (if trim (inputValue st) = [] \<or> isStreaming st then []
      else
        (let userMsg = userMsg_of clock st;
             botMsgId = botMsgId_of clock;
             q0 = setMessages
                    (Append \<lparr>msg_id = botMsgId, role = model, msg_text = [], timestamp = clock 3\<rparr>)
                    (setMessages (Append userMsg) \<lparr>committed = messages st, pending = []\<rparr>);
             q1 = (if early then render [] q0 else q0);
             shown1 = (if early then [committed q1] else []);
             (fullText, q2, shown2) = stream_run botMsgId [] cs sched q1 shown1
         in shown2 @ [committed (render fullText q2)]))"

text \<open>
  The texts that a stream is to show according to its description, the running
  concatenation after each chunk, kept for the chunks after which a render takes place.
\<close>

fun shown_prefixes :: "string \<Rightarrow> string option list \<Rightarrow> bool list \<Rightarrow> string list" where
  "shown_prefixes fullText [] sched = []"
| "shown_prefixes fullText (c # cs) [] = shown_prefixes (fullText @ chunk_text c) cs []"
| "shown_prefixes fullText (c # cs) (x # xs) =
     (if x then [fullText @ chunk_text c] else []) @
     shown_prefixes (fullText @ chunk_text c) cs xs"

section \<open>Properties of the classifier\<close>

lemma includes_sublist: "str_includes s sub = sublist sub s"
  by (induction s) (simp_all add: sublist_Cons_right)

lemma includes_iff: "str_includes s sub \<longleftrightarrow> (\<exists>ps ss. s = ps @ sub @ ss)"
  by (simp add: includes_sublist sublist_def)

lemma falsy_no_marker:
  "\<not> truthy e \<Longrightarrow>
     status e \<noteq> StatusNum 429 \<and> \<not> str_includes (toString e) ''429'' \<and>
     \<not> str_includes (toString e) ''RESOURCE_EXHAUSTED'' \<and> \<not> str_includes (toString e) ''quota''"
  by (cases e) simp_all

text \<open>
  Claim C1. For every error value \<open>e\<close>, \<open>isRateLimitError e\<close> is true exactly when
  the \<open>status\<close> field of \<open>e\<close> is the number 429, or the string representation of
  \<open>e\<close> contains \<open>429\<close>, \<open>RESOURCE_EXHAUSTED\<close> or \<open>quota\<close> as a (case-sensitive)
  substring; a value with none of these is not rate-limited.
\<close>

theorem isRateLimitError_iff:
  "isRateLimitError e \<longleftrightarrow>
     (status e = StatusNum 429 \<or>
      (\<exists>ps ss. toString e = ps @ ''429'' @ ss) \<or>
      (\<exists>ps ss. toString e = ps @ ''RESOURCE_EXHAUSTED'' @ ss) \<or>
      (\<exists>ps ss. toString e = ps @ ''quota'' @ ss))"
proof (cases "truthy e")
  case True
  then show ?thesis
    by (simp add: isRateLimitError_def Let_def includes_iff)
next
  case False
  from falsy_no_marker [OF this] have "\<not> isRateLimitError e"
    by (simp add: isRateLimitError_def)
  with falsy_no_marker [OF False] show ?thesis
    by (simp add: includes_iff)
qed

theorem isRateLimitError_iff_witness:
  "isRateLimitError (ETruthy NoStatus ''Error: quota exceeded'') \<and>
   isRateLimitError (ETruthy (StatusNum 429) ''ApiError'') \<and>
   \<not> isRateLimitError (ETruthy (StatusNum 500) ''Error: internal'') \<and>
   \<not> isRateLimitError ENull"
  unfolding isRateLimitError_iff includes_iff [symmetric]
  by simp

section \<open>Helpers of the language\<close>

lemma slice_take: "0 \<le> n \<Longrightarrow> slice 0 (Some n) xs = take (nat n) xs"
  by (simp add: slice_def Let_def min_def)

lemma slice_drop: "0 \<le> k \<Longrightarrow> slice k None xs = drop (nat k) xs"
  by (auto simp add: slice_def Let_def min_def)

lemma slice_butlast: "slice 0 (Some (- 1)) xs = butlast xs"
  by (cases "xs = []") (auto simp add: slice_def Let_def max_def butlast_conv_take nat_diff_distrib)

lemma find_first_Some: "find_first P xs = Some x \<Longrightarrow> x \<in> set xs \<and> P x"
  by (induction xs) (auto split: if_splits)

section \<open>The categorize operation\<close>

lemma mergeResults_Nil: "mergeResults [] prev = prev"
  by (simp add: mergeResults_def)

text \<open>
  Claim C2, as stated, fails. It says that every failure other than a rate-limited
  failure of the remote call, a response that cannot be parsed included, gives the empty
  list. The parse is inside the same \<^verbatim>\<open>try\<close>: when the remote call succeeds and
  \<^verbatim>\<open>JSON.parse\<close> throws an error whose string form contains \<open>quota\<close> (an engine
  that quotes the offending text in its message does so for the response text
  \<open>quota exceeded\<close>), the handler classifies that error as rate-limited and the
  operation fails with \<open>RATE_LIMIT\<close> instead of returning the empty list.
\<close>

theorem categorizeTransactions_parse_failure_counterexample:
  \<open>categorizeTransactions [INITIAL_DATA ! 8]
      (Returns (Some ''quota exceeded''))
      (Throws (ETruthy NoStatus
         ''SyntaxError: Unexpected token 'q', "quota exceeded" is not valid JSON''))
    = Inl RATE_LIMIT\<close>
  by (simp add: categorizeTransactions_def categorize_catch_def isRateLimitError_def)

text \<open>
  Claim C2, amended. For every input list of transactions and every failure inside the
  operation, whether the remote call throws \<open>e\<close> or the call returns a non-empty text
  on which \<^verbatim>\<open>JSON.parse\<close> throws \<open>e\<close>: if \<open>e\<close> is classified as rate-limited,
  \<open>categorizeTransactions\<close> fails with the distinct error \<open>RATE_LIMIT\<close>; if it is not,
  \<open>categorizeTransactions\<close> returns the empty list, no error reaches the caller, and
  merging the empty list updates no transaction.
\<close>

theorem categorizeTransactions_failure:
  assumes "response = Throws e \<or>
           (\<exists>txt. response = Returns (Some txt) \<and> txt \<noteq> [] \<and> parsed = Throws e)"
  shows "(isRateLimitError e \<longrightarrow> categorizeTransactions ts response parsed = Inl RATE_LIMIT) \<and>
         (\<not> isRateLimitError e \<longrightarrow>
            categorizeTransactions ts response parsed = Inr [] \<and> mergeResults [] prev = prev)"
  using assms
  by (auto simp add: categorizeTransactions_def categorize_catch_def mergeResults_Nil)

theorem categorizeTransactions_failure_witness:
  \<open>categorizeTransactions [] (Throws (ETruthy (StatusNum 429) ''ApiError'')) (Returns [])
     = Inl RATE_LIMIT \<and>
   categorizeTransactions [] (Returns (Some ''[{''))
      (Throws (ETruthy NoStatus ''SyntaxError: Unexpected end of JSON input'')) = Inr [] \<and>
   mergeResults [] INITIAL_DATA = INITIAL_DATA\<close>
proof -
  have a: "isRateLimitError (ETruthy (StatusNum 429) ''ApiError'')"
    by (simp add: isRateLimitError_def)
  have b: "\<not> isRateLimitError (ETruthy NoStatus ''SyntaxError: Unexpected end of JSON input'')"
    by (simp add: isRateLimitError_def)
  from categorizeTransactions_failure
         [of "Throws (ETruthy (StatusNum 429) ''ApiError'')" "ETruthy (StatusNum 429) ''ApiError''"
             "Returns []" "[]" INITIAL_DATA] a
  have 1: "categorizeTransactions [] (Throws (ETruthy (StatusNum 429) ''ApiError'')) (Returns [])
     = Inl RATE_LIMIT" by simp
  from categorizeTransactions_failure
         [of "Returns (Some ''[{'')" "ETruthy NoStatus ''SyntaxError: Unexpected end of JSON input''"
             "Throws (ETruthy NoStatus ''SyntaxError: Unexpected end of JSON input'')" "[]" INITIAL_DATA] b
  have 2: "categorizeTransactions [] (Returns (Some ''[{''))
      (Throws (ETruthy NoStatus ''SyntaxError: Unexpected end of JSON input'')) = Inr [] \<and>
   mergeResults [] INITIAL_DATA = INITIAL_DATA" by simp
  from 1 2 show ?thesis by simp
qed

section \<open>The insights operation\<close>

text \<open>
  Claim C6. For every input list of transactions, \<open>getSpendingInsights\<close> returns the
  raw response text when it is not empty, the default string
  \<open>No insights available at this time.\<close> when the response has no text or an empty
  one, raises \<open>RATE_LIMIT\<close> when the call throws an error classified as
  rate-limited, and returns the fixed string
  \<open>Could not generate insights at this time. Please try again later.\<close>, without
  raising, when the call throws any other error.
\<close>

theorem getSpendingInsights_cases:
  "(\<forall>t. generateContent (insightPrompt nts ts) = Returns (Some t) \<and> t \<noteq> [] \<longrightarrow>
        getSpendingInsights nts generateContent ts = Inr t) \<and>
   (generateContent (insightPrompt nts ts) = Returns None \<or>
    generateContent (insightPrompt nts ts) = Returns (Some []) \<longrightarrow>
        getSpendingInsights nts generateContent ts = Inr ''No insights available at this time.'') \<and>
   (\<forall>e. generateContent (insightPrompt nts ts) = Throws e \<and> isRateLimitError e \<longrightarrow>
        getSpendingInsights nts generateContent ts = Inl RATE_LIMIT) \<and>
   (\<forall>e. generateContent (insightPrompt nts ts) = Throws e \<and> \<not> isRateLimitError e \<longrightarrow>
        getSpendingInsights nts generateContent ts =
          Inr ''Could not generate insights at this time. Please try again later.'')"
  by (simp add: getSpendingInsights_def Let_def)

theorem getSpendingInsights_cases_witness:
  "getSpendingInsights (\<lambda>n. ''0'') (\<lambda>p. Returns (Some ''- Eat in more often'')) INITIAL_DATA
     = Inr ''- Eat in more often'' \<and>
   getSpendingInsights (\<lambda>n. ''0'') (\<lambda>p. Returns None) INITIAL_DATA
     = Inr ''No insights available at this time.'' \<and>
   getSpendingInsights (\<lambda>n. ''0'') (\<lambda>p. Throws (ETruthy (StatusNum 429) ''ApiError'')) INITIAL_DATA
     = Inl RATE_LIMIT \<and>
   getSpendingInsights (\<lambda>n. ''0'') (\<lambda>p. Throws (ETruthy NoStatus ''TypeError: fetch failed'')) INITIAL_DATA
     = Inr ''Could not generate insights at this time. Please try again later.''"
proof -
  have a: "isRateLimitError (ETruthy (StatusNum 429) ''ApiError'')"
    by (simp add: isRateLimitError_def)
  have b: "\<not> isRateLimitError (ETruthy NoStatus ''TypeError: fetch failed'')"
    by (simp add: isRateLimitError_def)
  show ?thesis
    using a b
      getSpendingInsights_cases
        [where generateContent = "\<lambda>p. Returns (Some ''- Eat in more often'')"
           and nts = "\<lambda>n. ''0''" and ts = INITIAL_DATA]
      getSpendingInsights_cases
        [where generateContent = "\<lambda>p. Returns None"
           and nts = "\<lambda>n. ''0''" and ts = INITIAL_DATA]
      getSpendingInsights_cases
        [where generateContent = "\<lambda>p. Throws (ETruthy (StatusNum 429) ''ApiError'')"
           and nts = "\<lambda>n. ''0''" and ts = INITIAL_DATA]
      getSpendingInsights_cases
        [where generateContent = "\<lambda>p. Throws (ETruthy NoStatus ''TypeError: fetch failed'')"
           and nts = "\<lambda>n. ''0''" and ts = INITIAL_DATA]
    by simp
qed

lemma insightLines_take: "insightLines nts ts = map (insightLine nts) (take 50 ts)"
  by (simp add: insightLines_def slice_take)

lemma join_contains:
  "x \<in> set xs \<Longrightarrow> \<exists>ps ss. join sep xs = ps @ x @ ss"
proof (induction sep xs rule: join.induct)
  case (1 sep)
  then show ?case by simp
next
  case (2 sep y)
  then have "join sep [y] = [] @ x @ []" by simp
  then show ?case by blast
next
  case (3 sep y z zs)
  show ?case
  proof (cases "x = y")
    case True
    then have "join sep (y # z # zs) = [] @ x @ (sep @ join sep (z # zs))" by simp
    then show ?thesis by blast
  next
    case False
    with 3 obtain ps ss where "join sep (z # zs) = ps @ x @ ss" by auto
    then have "join sep (y # z # zs) = (y @ sep @ ps) @ x @ ss" by simp
    then show ?thesis by blast
  qed
qed

lemma insightPrompt_shape:
  "insightPrompt nts ts =
     (''\<newline>    Analyze these recent financial transactions and provide a short, bulleted list (max 3 points) of key insights. '' @
      ''\<newline>    Focus on spending trends, potential savings, or unusual activity.'' @
      ''\<newline>    Keep it friendly and concise.'' @
      ''\<newline>    '' @
      ''\<newline>    Data:'' @
      ''\<newline>    '') @
     join ''\<newline>'' (map (insightLine nts) (take 50 ts)) @
     ''\<newline>  ''"
  by (simp add: insightPrompt_def insightSummary_def insightLines_take)

text \<open>
  Claim C9. For every input list of transactions, the insight request is built from
  exactly the first \<open>min (length ts) 50\<close> transactions, in order: the prompt is the
  fixed heading, then the lines of the transactions of \<open>take 50 ts\<close> joined by line
  feeds, then the fixed ending; the line of each of these transactions occurs in the
  prompt; nothing after the 50th transaction has any influence on the prompt or on the
  operation, which reaches the service through this prompt only; and a list of 200
  transactions sends exactly 50 lines.
\<close>

theorem insight_request_first_50:
  "insightLines nts ts = map (insightLine nts) (take 50 ts) \<and>
   length (insightLines nts ts) = min (length ts) 50 \<and>
   (\<forall>i < min (length ts) 50. insightLines nts ts ! i = insightLine nts (ts ! i)) \<and>
   insightSummary nts ts = join ''\<newline>'' (map (insightLine nts) (take 50 ts)) \<and>
   insightPrompt nts ts =
     (''\<newline>    Analyze these recent financial transactions and provide a short, bulleted list (max 3 points) of key insights. '' @
      ''\<newline>    Focus on spending trends, potential savings, or unusual activity.'' @
      ''\<newline>    Keep it friendly and concise.'' @
      ''\<newline>    '' @
      ''\<newline>    Data:'' @
      ''\<newline>    '') @
     join ''\<newline>'' (map (insightLine nts) (take 50 ts)) @
     ''\<newline>  '' \<and>
   (\<forall>i < min (length ts) 50.
      \<exists>ps ss. insightPrompt nts ts = ps @ insightLine nts (ts ! i) @ ss) \<and>
   insightPrompt nts ts = insightPrompt nts (take 50 ts) \<and>
   (\<forall>g g'. g (insightPrompt nts ts) = g' (insightPrompt nts ts) \<longrightarrow>
      getSpendingInsights nts g ts = getSpendingInsights nts g' ts) \<and>
   getSpendingInsights nts generateContent ts = getSpendingInsights nts generateContent (take 50 ts) \<and>
   (length ts = 200 \<longrightarrow> length (insightLines nts ts) = 50)"
proof -
  have l: "insightLines nts (take 50 ts) = insightLines nts ts"
    by (simp add: insightLines_take)
  have s: "insightSummary nts ts = join ''\<newline>'' (map (insightLine nts) (take 50 ts))"
    by (simp add: insightSummary_def insightLines_take)
  have p: "insightPrompt nts (take 50 ts) = insightPrompt nts ts"
    by (simp only: insightPrompt_def insightSummary_def l)
  have g: "getSpendingInsights nts generateContent (take 50 ts) = getSpendingInsights nts generateContent ts"
    by (simp only: getSpendingInsights_def p)
  have only: "getSpendingInsights nts g ts = getSpendingInsights nts g' ts"
    if "g (insightPrompt nts ts) = g' (insightPrompt nts ts)" for g g'
    using that by (simp add: getSpendingInsights_def Let_def)
  have inc: "\<exists>ps ss. insightPrompt nts ts = ps @ insightLine nts (ts ! i) @ ss"
    if "i < min (length ts) 50" for i
  proof -
    from that have "insightLine nts (ts ! i) \<in> set (map (insightLine nts) (take 50 ts))"
      by (auto simp add: in_set_conv_nth intro!: image_eqI [where x = "ts ! i"] exI [of _ i])
    from join_contains [OF this, of "''\<newline>''"]
    obtain ps ss where j: "join ''\<newline>'' (map (insightLine nts) (take 50 ts)) =
        ps @ insightLine nts (ts ! i) @ ss"
      by blast
    let ?H = "''\<newline>    Analyze these recent financial transactions and provide a short, bulleted list (max 3 points) of key insights. '' @
      ''\<newline>    Focus on spending trends, potential savings, or unusual activity.'' @
      ''\<newline>    Keep it friendly and concise.'' @
      ''\<newline>    '' @
      ''\<newline>    Data:'' @
      ''\<newline>    ''"
    have "insightPrompt nts ts = (?H @ ps) @ insightLine nts (ts ! i) @ (ss @ ''\<newline>  '')"
      by (simp only: insightPrompt_shape j append_assoc)
    then show ?thesis by (intro exI)
  qed
  have a: "insightLines nts ts = map (insightLine nts) (take 50 ts)"
    by (rule insightLines_take)
  have b: "length (insightLines nts ts) = min (length ts) 50"
    by (simp add: a)
  have c: "insightLines nts ts ! i = insightLine nts (ts ! i)" if "i < min (length ts) 50" for i
    using that by (simp add: a)
  have d: "length (insightLines nts ts) = 50" if "length ts = 200"
    using that by (simp add: b)
  show ?thesis
  proof (intro conjI allI impI)
    show "insightPrompt nts ts = insightPrompt nts (take 50 ts)"
      by (rule p [symmetric])
    show "getSpendingInsights nts generateContent ts =
        getSpendingInsights nts generateContent (take 50 ts)"
      by (rule g [symmetric])
  qed (fact a b c d s insightPrompt_shape inc only)+
qed

theorem insight_request_first_50_witness:
  "length (insightLines (\<lambda>n. ''0'') (replicate 200 (INITIAL_DATA ! 0))) = 50 \<and>
   insightLines (\<lambda>n. ''0'') (replicate 200 (INITIAL_DATA ! 0)) ! 49
     = insightLine (\<lambda>n. ''0'') (INITIAL_DATA ! 0) \<and>
   length (insightLines (\<lambda>n. ''0'') INITIAL_DATA) = 9 \<and>
   insightPrompt (\<lambda>n. ''6.5'') [INITIAL_DATA ! 6, INITIAL_DATA ! 6] =
     ''\<newline>    Analyze these recent financial transactions and provide a short, bulleted list (max 3 points) of key insights. '' @
     ''\<newline>    Focus on spending trends, potential savings, or unusual activity.'' @
     ''\<newline>    Keep it friendly and concise.'' @
     ''\<newline>    '' @
     ''\<newline>    Data:'' @
     ''\<newline>    2023-11-12: Coffee Shop ($6.5) - Food & Dining'' @
     ''\<newline>2023-11-12: Coffee Shop ($6.5) - Food & Dining'' @
     ''\<newline>  ''"
proof -
  have n: "length INITIAL_DATA = 9"
    by (simp add: INITIAL_DATA_def)
  have e: "insightLine (\<lambda>n. ''6.5'') (INITIAL_DATA ! 6) =
      ''2023-11-12: Coffee Shop ($6.5) - Food & Dining''"
    by (simp add: INITIAL_DATA_def insightLine_def)
  note a = insight_request_first_50
        [where nts = "\<lambda>n. ''0''" and ts = "replicate 200 (INITIAL_DATA ! 0)"]
  note b = insight_request_first_50 [where nts = "\<lambda>n. ''0''" and ts = INITIAL_DATA]
  note c = insight_request_first_50
        [where nts = "\<lambda>n. ''6.5''" and ts = "[INITIAL_DATA ! 6, INITIAL_DATA ! 6]",
         THEN conjunct2, THEN conjunct2, THEN conjunct2, THEN conjunct2, THEN conjunct1]
  from a have 1: "length (insightLines (\<lambda>n. ''0'') (replicate 200 (INITIAL_DATA ! 0))) = 50"
    by simp
  from a [THEN conjunct2, THEN conjunct2, THEN conjunct1, rule_format, of 49]
  have 2: "insightLines (\<lambda>n. ''0'') (replicate 200 (INITIAL_DATA ! 0)) ! 49
     = insightLine (\<lambda>n. ''0'') (INITIAL_DATA ! 0)"
    by simp
  from b n have 3: "length (insightLines (\<lambda>n. ''0'') INITIAL_DATA) = 9"
    by simp
  from c have 4: "insightPrompt (\<lambda>n. ''6.5'') [INITIAL_DATA ! 6, INITIAL_DATA ! 6] =
     ''\<newline>    Analyze these recent financial transactions and provide a short, bulleted list (max 3 points) of key insights. '' @
     ''\<newline>    Focus on spending trends, potential savings, or unusual activity.'' @
     ''\<newline>    Keep it friendly and concise.'' @
     ''\<newline>    '' @
     ''\<newline>    Data:'' @
     ''\<newline>    2023-11-12: Coffee Shop ($6.5) - Food & Dining'' @
     ''\<newline>2023-11-12: Coffee Shop ($6.5) - Food & Dining'' @
     ''\<newline>  ''"
    by (simp add: e)
  from 1 2 3 4 show ?thesis by (intro conjI)
qed

section \<open>The merge of a categorize response\<close>

lemma find_first_key_None: "find_first (\<lambda>r. f r = k) xs = None \<longleftrightarrow> k \<notin> f ` set xs"
  by (induction xs) auto

lemma mergeResults_length: "length (mergeResults results prev) = length prev"
  by (simp add: mergeResults_def)

lemma mergeResults_nth:
  "i < length prev \<Longrightarrow>
   mergeResults results prev ! i =
     (case find_first (\<lambda>r. r_id r = tx_id (prev ! i)) results of
        Some m \<Rightarrow> (prev ! i)\<lparr>category := r_category m, isAnomaly := Some (r_isAnomaly m)\<rparr>
      | None \<Rightarrow> prev ! i)"
  by (simp add: mergeResults_def)

text \<open>
  Claim C3. For every transaction list and every categorize response list, the merge
  keeps the length and the order of the list; at every position the fields \<open>tx_id\<close>,
  \<open>date\<close>, \<open>description\<close>, \<open>amount\<close> and \<open>tx_type\<close> are unchanged; a
  transaction whose id is absent from the response is unchanged; and a transaction
  whose id is matched gets only its \<open>category\<close> and \<open>isAnomaly\<close> set, from the
  first response record with that id.
\<close>

theorem mergeResults_frame:
  "length (mergeResults results prev) = length prev \<and>
   (\<forall>i < length prev.
      tx_id (mergeResults results prev ! i) = tx_id (prev ! i) \<and>
      date (mergeResults results prev ! i) = date (prev ! i) \<and>
      description (mergeResults results prev ! i) = description (prev ! i) \<and>
      amount (mergeResults results prev ! i) = amount (prev ! i) \<and>
      tx_type (mergeResults results prev ! i) = tx_type (prev ! i) \<and>
      (tx_id (prev ! i) \<notin> r_id ` set results \<longrightarrow>
         mergeResults results prev ! i = prev ! i) \<and>
      (tx_id (prev ! i) \<in> r_id ` set results \<longrightarrow>
         (\<exists>m \<in> set results.
            r_id m = tx_id (prev ! i) \<and>
            find_first (\<lambda>r. r_id r = tx_id (prev ! i)) results = Some m \<and>
            mergeResults results prev ! i =
              (prev ! i)\<lparr>category := r_category m, isAnomaly := Some (r_isAnomaly m)\<rparr>)))"
proof (intro conjI allI impI)
  show "length (mergeResults results prev) = length prev"
    by (rule mergeResults_length)
next
  fix i assume i: "i < length prev"
  show "tx_id (mergeResults results prev ! i) = tx_id (prev ! i)"
    using i by (simp add: mergeResults_nth split: option.splits)
  show "date (mergeResults results prev ! i) = date (prev ! i)"
    using i by (simp add: mergeResults_nth split: option.splits)
  show "description (mergeResults results prev ! i) = description (prev ! i)"
    using i by (simp add: mergeResults_nth split: option.splits)
  show "amount (mergeResults results prev ! i) = amount (prev ! i)"
    using i by (simp add: mergeResults_nth split: option.splits)
  show "tx_type (mergeResults results prev ! i) = tx_type (prev ! i)"
    using i by (simp add: mergeResults_nth split: option.splits)
  show "mergeResults results prev ! i = prev ! i"
    if "tx_id (prev ! i) \<notin> r_id ` set results"
  proof -
    from that have "find_first (\<lambda>r. r_id r = tx_id (prev ! i)) results = None"
      by (simp add: find_first_key_None)
    with i show ?thesis by (simp add: mergeResults_nth)
  qed
  show "\<exists>m \<in> set results.
            r_id m = tx_id (prev ! i) \<and>
            find_first (\<lambda>r. r_id r = tx_id (prev ! i)) results = Some m \<and>
            mergeResults results prev ! i =
              (prev ! i)\<lparr>category := r_category m, isAnomaly := Some (r_isAnomaly m)\<rparr>"
    if "tx_id (prev ! i) \<in> r_id ` set results"
  proof -
    from that have "find_first (\<lambda>r. r_id r = tx_id (prev ! i)) results \<noteq> None"
      by (simp add: find_first_key_None)
    then obtain m where m: "find_first (\<lambda>r. r_id r = tx_id (prev ! i)) results = Some m"
      by blast
    from find_first_Some [OF m] have "m \<in> set results" "r_id m = tx_id (prev ! i)"
      by simp_all
    with m i show ?thesis
      by (auto simp add: mergeResults_nth)
  qed
qed

theorem mergeResults_frame_witness:
  "mergeResults
     [\<lparr>r_id = ''1'', r_category = ''Food & Dining'', r_isAnomaly = False\<rparr>]
     [\<lparr>tx_id = ''1'', date = ''2023-11-12'', description = ''Coffee Shop'', amount = Fin (13 / 2),
        tx_type = EXPENSE, category = ''Uncategorized'', isAnomaly = None\<rparr>,
      \<lparr>tx_id = ''2'', date = ''2023-11-15'', description = ''Rent Payment'', amount = Fin 1800,
        tx_type = EXPENSE, category = ''Uncategorized'', isAnomaly = None\<rparr>]
   = [\<lparr>tx_id = ''1'', date = ''2023-11-12'', description = ''Coffee Shop'', amount = Fin (13 / 2),
        tx_type = EXPENSE, category = ''Food & Dining'', isAnomaly = Some False\<rparr>,
      \<lparr>tx_id = ''2'', date = ''2023-11-15'', description = ''Rent Payment'', amount = Fin 1800,
        tx_type = EXPENSE, category = ''Uncategorized'', isAnomaly = None\<rparr>]"
  (is "mergeResults ?rs ?ts = ?out")
proof -
  note f = mergeResults_frame [of ?rs ?ts]
  from f have len: "length (mergeResults ?rs ?ts) = 2" by simp
  from f have "\<forall>i<2. (tx_id (?ts ! i) \<notin> r_id ` set ?rs \<longrightarrow> mergeResults ?rs ?ts ! i = ?ts ! i) \<and>
      (tx_id (?ts ! i) \<in> r_id ` set ?rs \<longrightarrow>
         (\<exists>m \<in> set ?rs. mergeResults ?rs ?ts ! i =
              (?ts ! i)\<lparr>category := r_category m, isAnomaly := Some (r_isAnomaly m)\<rparr>))"
    by simp
  then have e: "mergeResults ?rs ?ts ! 0 = ?out ! 0" "mergeResults ?rs ?ts ! 1 = ?out ! 1"
    by simp_all
  show ?thesis
  proof (rule nth_equalityI)
    show "length (mergeResults ?rs ?ts) = length ?out" using len by simp
    fix i assume "i < length (mergeResults ?rs ?ts)"
    with len have "i = 0 \<or> i = 1" by auto
    with e show "mergeResults ?rs ?ts ! i = ?out ! i" by auto
  qed
qed

section \<open>The manual category edit\<close>

text \<open>
  Claim C10. For every transaction list, every id and every new category, a manual
  category edit gives a list of the same length and order in which a transaction with
  the given id is the old one with only its \<open>category\<close> set to the new value, every
  other transaction is unchanged, and the whole list is unchanged when no transaction
  has the given id.
\<close>

theorem handleCategoryChange_frame:
  "length (transactions (handleCategoryChange ident c st)) = length (transactions st) \<and>
   (\<forall>i < length (transactions st).
      (tx_id (transactions st ! i) = ident \<longrightarrow>
         transactions (handleCategoryChange ident c st) ! i = (transactions st ! i)\<lparr>category := c\<rparr>) \<and>
      (tx_id (transactions st ! i) \<noteq> ident \<longrightarrow>
         transactions (handleCategoryChange ident c st) ! i = transactions st ! i)) \<and>
   (ident \<notin> tx_id ` set (transactions st) \<longrightarrow>
      transactions (handleCategoryChange ident c st) = transactions st)"
proof -
  have "map (\<lambda>t. if tx_id t = ident then t\<lparr>category := c\<rparr> else t) ts = ts"
    if "ident \<notin> tx_id ` set ts" for ts :: "transaction list"
    using that by (induction ts) auto
  then show ?thesis
    by (simp add: handleCategoryChange_def)
qed

theorem handleCategoryChange_frame_witness:
  "transactions (handleCategoryChange ''9'' ''Shopping''
     \<lparr>transactions = INITIAL_DATA, isAutoCategorizing = False,
        editingId = Some ''9'', errorMsg = None\<rparr>) ! 8
     = (INITIAL_DATA ! 8)\<lparr>category := ''Shopping''\<rparr> \<and>
   transactions (handleCategoryChange ''9'' ''Shopping''
     \<lparr>transactions = INITIAL_DATA, isAutoCategorizing = False,
        editingId = Some ''9'', errorMsg = None\<rparr>) ! 0
     = INITIAL_DATA ! 0 \<and>
   transactions (handleCategoryChange ''42'' ''Shopping''
     \<lparr>transactions = INITIAL_DATA, isAutoCategorizing = False,
        editingId = Some ''9'', errorMsg = None\<rparr>)
     = INITIAL_DATA"
  (is "transactions (handleCategoryChange _ _ ?st) ! 8 = _ \<and> _")
proof -
  note a = handleCategoryChange_frame [of "''9''" "''Shopping''" ?st]
  note b = handleCategoryChange_frame [of "''42''" "''Shopping''" ?st]
  have n: "length INITIAL_DATA = 9" "tx_id (INITIAL_DATA ! 8) = ''9''"
    "tx_id (INITIAL_DATA ! 0) \<noteq> ''9''" "''42'' \<notin> tx_id ` set INITIAL_DATA"
    by (simp_all add: INITIAL_DATA_def)
  from a n have "transactions (handleCategoryChange ''9'' ''Shopping'' ?st) ! 8
     = (INITIAL_DATA ! 8)\<lparr>category := ''Shopping''\<rparr>"
    by simp
  moreover from a n have "transactions (handleCategoryChange ''9'' ''Shopping'' ?st) ! 0
     = INITIAL_DATA ! 0"
    by simp
  moreover from b n have "transactions (handleCategoryChange ''42'' ''Shopping'' ?st)
     = INITIAL_DATA"
    by simp
  ultimately show ?thesis by simp
qed

section \<open>The CSV importer\<close>

lemma nonneg_Math_abs: "\<not> isNaN a \<Longrightarrow> nonneg (Math_abs a)"
  by (cases a) simp_all

lemma csv_forEach_entries:
  "map (\<lambda>t. (amount t, tx_type t)) (csv_forEach pf clock today idx lines acc) =
     map (\<lambda>t. (amount t, tx_type t)) acc @
     map (spec_row_entry pf) (filter (spec_row_accepted pf) lines)"
  by (induction lines arbitrary: idx acc)
     (simp_all add: Let_def spec_row_entry_def spec_row_accepted_def)


lemma csv_forEach_nonneg:
  "amounts_nonneg acc \<Longrightarrow> amounts_nonneg (csv_forEach pf clock today idx lines acc)"
  by (induction lines arbitrary: idx acc)
     (simp_all add: Let_def amounts_nonneg_def nonneg_Math_abs)



section \<open>The invariant of the store\<close>

lemma mergeResults_nonneg:
  "amounts_nonneg prev \<Longrightarrow> amounts_nonneg (mergeResults results prev)"
  by (induction prev) (simp_all add: amounts_nonneg_def mergeResults_def split: option.splits)

lemma categoryChange_nonneg:
  "amounts_nonneg prev \<Longrightarrow>
   amounts_nonneg (map (\<lambda>t. if tx_id t = ident then t\<lparr>category := c\<rparr> else t) prev)"
  by (induction prev) (simp_all add: amounts_nonneg_def)

lemma amounts_nonneg_append:
  "amounts_nonneg (xs @ ys) \<longleftrightarrow> amounts_nonneg xs \<and> amounts_nonneg ys"
  by (simp add: amounts_nonneg_def)

lemma csv_import_nonneg: "amounts_nonneg (csv_import pf clock today txt)"
  unfolding csv_import_def Let_def
  by (rule csv_forEach_nonneg) (simp add: amounts_nonneg_def)

lemma runAutoCategorization_nonneg:
  "amounts_nonneg (transactions st) \<Longrightarrow>
   amounts_nonneg (transactions (runAutoCategorization response parsed st))"
  by (simp add: runAutoCategorization_def Let_def mergeResults_nonneg
           split: sum.splits gateway_error.splits)

lemma INITIAL_DATA_nonneg: "amounts_nonneg INITIAL_DATA"
  by (simp add: amounts_nonneg_def INITIAL_DATA_def)

text \<open>
  Claim C7. Every operation that writes the transaction store keeps every amount
  non-negative: the seed data satisfies the invariant; the CSV import stores absolute
  values only and carries the sign of the parsed value in the type; and the CSV import,
  the manual category edit and the categorize run each preserve the invariant.
\<close>

theorem store_writes_keep_amounts_nonneg:
  "amounts_nonneg INITIAL_DATA \<and>
   amounts_nonneg (csv_import pf clock today txt) \<and>
   map tx_type (csv_import pf clock today txt) =
     map (\<lambda>line. if lt_zero (pf (split_on CHR '','' line ! 2)) then EXPENSE else INCOME)
       (filter (spec_row_accepted pf) (drop 1 (split_on CHR 0x0A txt))) \<and>
   (amounts_nonneg (transactions st) \<longrightarrow>
      amounts_nonneg (transactions (handleFileUpload pf clock today upload st)) \<and>
      amounts_nonneg (transactions (handleCategoryChange ident c st)) \<and>
      amounts_nonneg (transactions (runAutoCategorization response parsed st)))"
proof -
  have "map (\<lambda>t. (amount t, tx_type t)) (csv_import pf clock today txt) =
     map (spec_row_entry pf)
       (filter (spec_row_accepted pf) (drop 1 (split_on CHR 0x0A txt)))"
    by (simp add: csv_import_def csv_forEach_entries slice_drop)
  from arg_cong [OF this, of "map snd"]
  have t: "map tx_type (csv_import pf clock today txt) =
     map (\<lambda>line. if lt_zero (pf (split_on CHR '','' line ! 2)) then EXPENSE else INCOME)
       (filter (spec_row_accepted pf) (drop 1 (split_on CHR 0x0A txt)))"
    by (simp add: spec_row_entry_def comp_def)
  have u: "amounts_nonneg (transactions (handleFileUpload pf clock today upload st))"
    if "amounts_nonneg (transactions st)"
    using that
    by (cases upload) (simp_all add: handleFileUpload_def amounts_nonneg_append csv_import_nonneg)
  have e: "amounts_nonneg (transactions (handleCategoryChange ident c st))"
    if "amounts_nonneg (transactions st)"
    using that by (simp add: handleCategoryChange_def categoryChange_nonneg)
  show ?thesis
    using t u e INITIAL_DATA_nonneg csv_import_nonneg runAutoCategorization_nonneg
    by blast
qed

theorem store_writes_keep_amounts_nonneg_witness:
  "amounts_nonneg (transactions (handleFileUpload parseFloat_exact (\<lambda>i. 1700000000000)
      (\<lambda>i. ''2024-02-01'') (Some ''Date,Description,Amount\<newline>2024-01-05,Coffee,-50'')
      \<lparr>transactions = INITIAL_DATA, isAutoCategorizing = False,
         editingId = None, errorMsg = None\<rparr>)) \<and>
   amounts_nonneg (transactions (handleCategoryChange ''9'' ''Shopping''
      \<lparr>transactions = INITIAL_DATA, isAutoCategorizing = False,
         editingId = None, errorMsg = None\<rparr>)) \<and>
   amounts_nonneg (transactions (runAutoCategorization (Returns (Some ''[]'')) (Returns
      [\<lparr>r_id = ''9'', r_category = ''Shopping'', r_isAnomaly = False\<rparr>])
      \<lparr>transactions = INITIAL_DATA, isAutoCategorizing = False,
         editingId = None, errorMsg = None\<rparr>))"
proof -
  note t = store_writes_keep_amounts_nonneg
    [where st = "\<lparr>transactions = INITIAL_DATA, isAutoCategorizing = False,
                   editingId = None, errorMsg = None\<rparr>"
       and pf = parseFloat_exact and clock = "\<lambda>i. 1700000000000"
       and today = "\<lambda>i. ''2024-02-01''"
       and upload = "Some ''Date,Description,Amount\<newline>2024-01-05,Coffee,-50''"
       and ident = "''9''" and c = "''Shopping''"
       and response = "Returns (Some ''[]'')"
       and parsed = "Returns [\<lparr>r_id = ''9'', r_category = ''Shopping'', r_isAnomaly = False\<rparr>]"]
  from t have "amounts_nonneg INITIAL_DATA" by blast
  with t show ?thesis by simp
qed

section \<open>The chat stream\<close>

lemma stream_update_twice:
  "stream_update b t2 (stream_update b t1 prev) = stream_update b t2 prev"
  by (induction prev) (simp_all add: stream_update_def)

lemma stream_loop_length: "length (stream_loop b f cs prev) = length cs"
  by (induction cs arbitrary: f prev) (simp_all add: Let_def)

lemma stream_loop_nth:
  "k < length cs \<Longrightarrow>
   stream_loop b f cs prev ! k =
     stream_update b (f @ concat (map chunk_text (take (Suc k) cs))) prev"
proof (induction cs arbitrary: f prev k)
  case Nil
  then show ?case by simp
next
  case (Cons c cs)
  show ?case
  proof (cases k)
    case 0
    then show ?thesis by (simp add: Let_def)
  next
    case (Suc j)
    with Cons.prems have "j < length cs" by simp
    from Cons.IH [OF this, of "f @ chunk_text c" "stream_update b (f @ chunk_text c) prev"]
    show ?thesis
      using Suc by (simp add: Let_def stream_update_twice)
  qed
qed

lemma stream_loop_last:
  "cs \<noteq> [] \<Longrightarrow>
   last (stream_loop b f cs prev) = stream_update b (f @ concat (map chunk_text cs)) prev"
proof -
  assume ne: "cs \<noteq> []"
  then have "stream_loop b f cs prev \<noteq> []"
    using stream_loop_length [of b f cs prev] by (metis length_0_conv)
  then have "last (stream_loop b f cs prev) = stream_loop b f cs prev ! (length cs - 1)"
    by (simp add: last_conv_nth stream_loop_length)
  also have "\<dots> = stream_update b (f @ concat (map chunk_text (take (Suc (length cs - 1)) cs))) prev"
    using ne by (intro stream_loop_nth) simp
  also have "Suc (length cs - 1) = length cs"
    using ne by simp
  finally show ?thesis by simp
qed

lemma stream_update_placeholder:
  "stream_update b t (ms @ [\<lparr>msg_id = b, role = model, msg_text = [], timestamp = ts\<rparr>]) =
     stream_update b t ms @ [\<lparr>msg_id = b, role = model, msg_text = t, timestamp = ts\<rparr>]"
  by (simp add: stream_update_def)

lemma last_updates:
  "last ((ms @ [\<lparr>msg_id = b, role = model, msg_text = [], timestamp = ts\<rparr>]) #
         stream_loop b [] cs (ms @ [\<lparr>msg_id = b, role = model, msg_text = [], timestamp = ts\<rparr>])) =
     (if cs = [] then ms else stream_update b (concat (map chunk_text cs)) ms) @
       [\<lparr>msg_id = b, role = model, msg_text = concat (map chunk_text cs), timestamp = ts\<rparr>]"
proof (cases "cs = []")
  case True
  then show ?thesis by simp
next
  case False
  then have "stream_loop b [] cs (ms @ [\<lparr>msg_id = b, role = model, msg_text = [], timestamp = ts\<rparr>]) \<noteq> []"
    using stream_loop_length [of b "[]" cs] by (metis length_0_conv)
  with False show ?thesis
    by (simp add: stream_loop_last stream_update_placeholder)
qed

lemma trim_Hi: "trim ''Hi'' \<noteq> []"
  by (simp add: trim_def is_ws_def)

subsection \<open>The renders of a stream that completes\<close>

lemma render_setMessages_SetText:
  "committed (render f (setMessages (SetText b) r)) = stream_update b f (committed (render f r))"
  by (simp add: render_def setMessages_def)

lemma render_render: "committed (render f (render f' r)) = committed (render f' r)"
  by (simp add: render_def)

lemma stream_run_char:
  assumes "\<And>f. stream_update b f (committed (render f r)) = stream_update b f base"
  shows "\<exists>r'. stream_run b f0 cs sched r shown =
           (f0 @ concat (map chunk_text cs), r',
            shown @ map (\<lambda>t. stream_update b t base) (shown_prefixes f0 cs sched)) \<and>
         (\<forall>f. stream_update b f (committed (render f r')) = stream_update b f base) \<and>
         (cs \<noteq> [] \<longrightarrow>
            committed (render (f0 @ concat (map chunk_text cs)) r') =
              stream_update b (f0 @ concat (map chunk_text cs)) base)"
  using assms
proof (induction cs arbitrary: f0 sched r shown)
  case Nil
  then show ?case by simp
next
  case (Cons c cs)
  let ?f = "f0 @ chunk_text c"
  let ?r1 = "setMessages (SetText b) r"
  have inv1: "stream_update b f (committed (render f ?r1)) = stream_update b f base" for f
    by (simp only: render_setMessages_SetText stream_update_twice Cons.prems)
  have com1: "committed (render f ?r1) = stream_update b f base" for f
    by (simp only: render_setMessages_SetText Cons.prems)
  let ?r2 = "render ?f ?r1"
  have inv2: "stream_update b f (committed (render f ?r2)) = stream_update b f base" for f
    by (simp only: render_render com1 stream_update_twice)
  have com2: "committed (render f ?r2) = stream_update b ?f base" for f
    by (simp only: render_render com1)
  show ?case
  proof (cases sched)
    case Nil
    from Cons.IH [of ?r1 ?f "[]" shown, OF inv1]
    obtain r' where r': "stream_run b ?f cs [] ?r1 shown =
           (?f @ concat (map chunk_text cs), r',
            shown @ map (\<lambda>t. stream_update b t base) (shown_prefixes ?f cs [])) \<and>
         (\<forall>f. stream_update b f (committed (render f r')) = stream_update b f base) \<and>
         (cs \<noteq> [] \<longrightarrow>
            committed (render (?f @ concat (map chunk_text cs)) r') =
              stream_update b (?f @ concat (map chunk_text cs)) base)"
      by blast
    have e: "cs = [] \<Longrightarrow> r' = ?r1"
      using r' by simp
    show ?thesis
      using Nil r' e com1 by (cases "cs = []") (auto simp add: Let_def)
  next
    case (Cons x xs)
    show ?thesis
    proof (cases x)
      case True
      from Cons.IH [of ?r2 ?f xs "shown @ [committed ?r2]", OF inv2]
      obtain r' where r': "stream_run b ?f cs xs ?r2 (shown @ [committed ?r2]) =
           (?f @ concat (map chunk_text cs), r',
            (shown @ [committed ?r2]) @ map (\<lambda>t. stream_update b t base) (shown_prefixes ?f cs xs)) \<and>
         (\<forall>f. stream_update b f (committed (render f r')) = stream_update b f base) \<and>
         (cs \<noteq> [] \<longrightarrow>
            committed (render (?f @ concat (map chunk_text cs)) r') =
              stream_update b (?f @ concat (map chunk_text cs)) base)"
        by blast
      have e: "cs = [] \<Longrightarrow> r' = ?r2"
        using r' by simp
      have c2: "committed ?r2 = stream_update b ?f base"
        by (rule com1)
      show ?thesis
        using Cons True r' e com2 c2 by (cases "cs = []") (auto simp add: Let_def)
    next
      case False
      from Cons.IH [of ?r1 ?f xs shown, OF inv1]
      obtain r' where r': "stream_run b ?f cs xs ?r1 shown =
           (?f @ concat (map chunk_text cs), r',
            shown @ map (\<lambda>t. stream_update b t base) (shown_prefixes ?f cs xs)) \<and>
         (\<forall>f. stream_update b f (committed (render f r')) = stream_update b f base) \<and>
         (cs \<noteq> [] \<longrightarrow>
            committed (render (?f @ concat (map chunk_text cs)) r') =
              stream_update b (?f @ concat (map chunk_text cs)) base)"
        by blast
      have e: "cs = [] \<Longrightarrow> r' = ?r1"
        using r' by simp
      show ?thesis
        using Cons False r' e com1 by (cases "cs = []") (auto simp add: Let_def)
    qed
  qed
qed

lemma shown_prefixes_set:
  "t \<in> set (shown_prefixes f cs sched) \<Longrightarrow>
   \<exists>k. k \<le> length cs \<and> t = f @ concat (map chunk_text (take k cs))"
proof (induction f cs sched rule: shown_prefixes.induct)
  case (1 fullText sched)
  then show ?case by simp
next
  case (2 fullText c cs)
  then obtain k where "k \<le> length cs"
    "t = (fullText @ chunk_text c) @ concat (map chunk_text (take k cs))"
    by auto
  then show ?case
    by (intro exI [of _ "Suc k"]) simp
next
  case (3 fullText c cs x xs)
  show ?case
  proof (cases "t \<in> set (shown_prefixes (fullText @ chunk_text c) cs xs)")
    case True
    with 3 obtain k where "k \<le> length cs"
      "t = (fullText @ chunk_text c) @ concat (map chunk_text (take k cs))"
      by auto
    then show ?thesis
      by (intro exI [of _ "Suc k"]) simp
  next
    case False
    with 3 have "t = fullText @ chunk_text c"
      by (auto split: if_splits)
    then show ?thesis
      by (intro exI [of _ "Suc 0"]) simp
  qed
qed

lemma shown_prefixes_all:
  "shown_prefixes f cs (replicate (length cs) True) =
     map (\<lambda>k. f @ concat (map chunk_text (take (Suc k) cs))) [0..<length cs]"
proof (induction cs arbitrary: f)
  case Nil
  then show ?case by simp
next
  case (Cons c cs)
  have "map (\<lambda>k. f @ concat (map chunk_text (take (Suc k) (c # cs)))) [0..<length (c # cs)] =
        (f @ chunk_text c) #
        map (\<lambda>k. (f @ chunk_text c) @ concat (map chunk_text (take (Suc k) cs))) [0..<length cs]"
    by (simp add: upt_conv_Cons map_Suc_upt [symmetric] del: upt_Suc)
  with Cons.IH [of "f @ chunk_text c"] show ?case
    by simp
qed

lemma handleSend_screens_unfold:
  assumes "trim (inputValue st) \<noteq> []" and "\<not> isStreaming st"
  shows "handleSend_screens clock early sched cs st =
     (if early then [messages st @ [userMsg_of clock st,
                    \<lparr>msg_id = botMsgId_of clock, role = model, msg_text = [], timestamp = clock 3\<rparr>]]
      else []) @
     map (\<lambda>t. stream_update (botMsgId_of clock) t
                 (messages st @ [userMsg_of clock st,
                    \<lparr>msg_id = botMsgId_of clock, role = model, msg_text = [], timestamp = clock 3\<rparr>]))
       (shown_prefixes [] cs sched) @
     [if cs = []
      then messages st @ [userMsg_of clock st,
             \<lparr>msg_id = botMsgId_of clock, role = model, msg_text = [], timestamp = clock 3\<rparr>]
      else stream_update (botMsgId_of clock) (concat (map chunk_text cs))
             (messages st @ [userMsg_of clock st,
                \<lparr>msg_id = botMsgId_of clock, role = model, msg_text = [], timestamp = clock 3\<rparr>])]"
proof -
  let ?b = "botMsgId_of clock"
  let ?ph = "\<lparr>msg_id = ?b, role = model, msg_text = [], timestamp = clock 3\<rparr>"
  let ?m2 = "messages st @ [userMsg_of clock st, ?ph]"
  let ?q0 = "setMessages (Append ?ph)
               (setMessages (Append (userMsg_of clock st)) \<lparr>committed = messages st, pending = []\<rparr>)"
  let ?q1 = "if early then render [] ?q0 else ?q0"
  let ?shown1 = "if early then [committed ?q1] else []"
  have c0: "committed (render f ?q0) = ?m2" for f
    by (simp add: render_def setMessages_def)
  have c1: "committed (render f ?q1) = ?m2" for f
    by (simp add: render_def setMessages_def)
  have inv: "stream_update ?b f (committed (render f ?q1)) = stream_update ?b f ?m2" for f
    by (simp only: c1)
  from stream_run_char [of ?b ?q1 ?m2 "[]" cs sched ?shown1, OF inv]
  obtain r' where r': "stream_run ?b [] cs sched ?q1 ?shown1 =
           ([] @ concat (map chunk_text cs), r',
            ?shown1 @ map (\<lambda>t. stream_update ?b t ?m2) (shown_prefixes [] cs sched))"
    and fin: "cs \<noteq> [] \<longrightarrow>
            committed (render ([] @ concat (map chunk_text cs)) r') =
              stream_update ?b ([] @ concat (map chunk_text cs)) ?m2"
    by blast
  have e: "cs = [] \<Longrightarrow> r' = ?q1"
    using r' by simp
  have s1: "?shown1 = (if early then [?m2] else [])"
    using c0 [of "[]"] by simp
  have last_screen: "committed (render (concat (map chunk_text cs)) r') =
      (if cs = [] then ?m2 else stream_update ?b (concat (map chunk_text cs)) ?m2)"
  proof (cases "cs = []")
    case True
    with e c1 [of "[]"] show ?thesis by simp
  next
    case False
    with fin show ?thesis by simp
  qed
  have "handleSend_screens clock early sched cs st =
      (?shown1 @ map (\<lambda>t. stream_update ?b t ?m2) (shown_prefixes [] cs sched)) @
      [committed (render (concat (map chunk_text cs)) r')]"
    using assms r' by (simp add: handleSend_screens_def Let_def)
  then show ?thesis
    by (simp only: s1 last_screen append_assoc)
qed

lemma last_update_placeholder2:
  "last (stream_update b t (ms @ [u, \<lparr>msg_id = b, role = model, msg_text = [], timestamp = ts\<rparr>])) =
     \<lparr>msg_id = b, role = model, msg_text = t, timestamp = ts\<rparr>"
  by (simp add: stream_update_def)

lemma stream_update_placeholder2:
  "stream_update b t (ms @ [u, \<lparr>msg_id = b, role = model, msg_text = [], timestamp = ts\<rparr>]) =
     stream_update b t (ms @ [u]) @ [\<lparr>msg_id = b, role = model, msg_text = t, timestamp = ts\<rparr>]"
  by (simp add: stream_update_def)

lemma handleSend_completed_messages:
  assumes "trim (inputValue st) \<noteq> []" and "\<not> isStreaming st"
  shows "messages (handleSend clock \<lparr>chunks = cs, failure = None\<rparr> st) =
     (if cs = []
      then messages st @ [userMsg_of clock st,
             \<lparr>msg_id = botMsgId_of clock, role = model, msg_text = [], timestamp = clock 3\<rparr>]
      else stream_update (botMsgId_of clock) (concat (map chunk_text cs))
             (messages st @ [userMsg_of clock st,
                \<lparr>msg_id = botMsgId_of clock, role = model, msg_text = [], timestamp = clock 3\<rparr>]))"
proof -
  let ?m1 = "messages st @ [userMsg_of clock st]"
  let ?b = "botMsgId_of clock"
  let ?m2 = "?m1 @ [\<lparr>msg_id = ?b, role = model, msg_text = [], timestamp = clock 3\<rparr>]"
  let ?ups = "stream_loop ?b [] cs ?m2"
  have tr: "handleSend_messages clock \<lparr>chunks = cs, failure = None\<rparr> st = [?m1, ?m2] @ ?ups"
    using assms by (simp add: handleSend_messages_def Let_def)
  have "last (handleSend_messages clock \<lparr>chunks = cs, failure = None\<rparr> st) = last (?m2 # ?ups)"
    by (simp add: tr)
  then have "messages (handleSend clock \<lparr>chunks = cs, failure = None\<rparr> st) = last (?m2 # ?ups)"
    using assms by (simp add: handleSend_def)
  also have "\<dots> = (if cs = [] then ?m1 else stream_update ?b (concat (map chunk_text cs)) ?m1) @
       [\<lparr>msg_id = ?b, role = model, msg_text = concat (map chunk_text cs), timestamp = clock 3\<rparr>]"
    by (rule last_updates)
  finally show ?thesis
    by (simp add: stream_update_placeholder2)
qed

text \<open>
  Claim C5, as stated, fails. It says that after each chunk the displayed message is
  updated to the concatenation of the chunks received so far, so that the chunks
  \<open>Hel\<close>, \<open>lo, \<close>, \<open>how can I help?\<close> produce the intermediate texts \<open>Hel\<close>
  and \<open>Hello, \<close>. The handler only queues an updater for each chunk, and the updater
  reads \<^verbatim>\<open>fullText\<close> when React runs it. When the three chunks arrive without a
  render in between, the page shows the empty placeholder and then the final text;
  neither intermediate text is ever displayed.
\<close>

theorem handleSend_screens_batched_counterexample:
  "map (msg_text \<circ> last)
     (handleSend_screens ((+) 1700000000000) True [False, False, False]
        [Some ''Hel'', Some ''lo, '', Some ''how can I help?'']
        \<lparr>messages = [], inputValue = ''Hi'', isStreaming = False\<rparr>)
     = ['''', ''Hello, how can I help?'']"
  by (simp add: handleSend_screens_def Let_def trim_def is_ws_def render_def setMessages_def
        stream_update_def chunk_text_def userMsg_of_def botMsgId_of_def)

text \<open>
  Claim C5, amended. For every finite sequence of chunks that a chat streaming call
  yields before it completes, and whenever React renders: the final displayed
  model-message text is the left-to-right concatenation of all chunks, and the final
  list is the state that \<open>handleSend\<close> leaves; every text displayed on the way is
  the concatenation of the chunks received up to that render, so the displayed texts
  are the empty placeholder (when React renders before the first chunk), the running
  concatenations at the chunks after which React renders, and the final text. When
  React renders after every chunk, the text after chunk \<open>k\<close> is the concatenation of
  the chunks \<open>0..k\<close> (the chunks \<open>Hel\<close>, \<open>lo, \<close>, \<open>how can I help?\<close> then give
  \<open>Hel\<close>, \<open>Hello, \<close> and \<open>Hello, how can I help?\<close>).
\<close>

theorem handleSend_screens_texts:
  assumes "trim (inputValue st) \<noteq> []" and "\<not> isStreaming st"
  shows
    "last (handleSend_screens clock early sched cs st) =
       messages (handleSend clock \<lparr>chunks = cs, failure = None\<rparr> st) \<and>
     last (last (handleSend_screens clock early sched cs st)) =
       \<lparr>msg_id = botMsgId_of clock, role = model,
         msg_text = concat (map chunk_text cs), timestamp = clock 3\<rparr> \<and>
     map (msg_text \<circ> last) (handleSend_screens clock early sched cs st) =
       (if early then [[]] else []) @ shown_prefixes [] cs sched @ [concat (map chunk_text cs)] \<and>
     (\<forall>m \<in> set (handleSend_screens clock early sched cs st).
        \<exists>k \<le> length cs.
          last m = \<lparr>msg_id = botMsgId_of clock, role = model,
                     msg_text = concat (map chunk_text (take k cs)), timestamp = clock 3\<rparr>) \<and>
     length (handleSend_screens clock True (replicate (length cs) True) cs st) = length cs + 2 \<and>
     (\<forall>k < length cs.
        last (handleSend_screens clock True (replicate (length cs) True) cs st ! Suc k) =
          \<lparr>msg_id = botMsgId_of clock, role = model,
            msg_text = concat (map chunk_text (take (Suc k) cs)), timestamp = clock 3\<rparr>)"
proof -
  let ?b = "botMsgId_of clock"
  let ?ph = "\<lparr>msg_id = ?b, role = model, msg_text = [], timestamp = clock 3\<rparr>"
  let ?m2 = "messages st @ [userMsg_of clock st, ?ph]"
  let ?bot = "\<lambda>t. \<lparr>msg_id = ?b, role = model, msg_text = t, timestamp = clock 3\<rparr>"
  let ?upd = "\<lambda>t. stream_update ?b t ?m2"
  let ?fin = "if cs = [] then ?m2 else ?upd (concat (map chunk_text cs))"
  note u = handleSend_screens_unfold [OF assms, of clock]
  have lu: "last (?upd t) = ?bot t" for t
    by (rule last_update_placeholder2)
  have lfin: "last ?fin = ?bot (concat (map chunk_text cs))"
    by (cases "cs = []") (simp_all add: lu)
  have c1: "last (handleSend_screens clock early sched cs st) =
       messages (handleSend clock \<lparr>chunks = cs, failure = None\<rparr> st)"
    by (simp add: u [of early sched cs] handleSend_completed_messages [OF assms])
  have "last (handleSend_screens clock early sched cs st) = ?fin"
    by (simp add: u [of early sched cs])
  with lfin have c2: "last (last (handleSend_screens clock early sched cs st)) =
       ?bot (concat (map chunk_text cs))"
    by simp
  have "map (msg_text \<circ> last) (map ?upd ps) = ps" for ps
    by (induction ps) (simp_all add: lu)
  then have c3: "map (msg_text \<circ> last) (handleSend_screens clock early sched cs st) =
       (if early then [[]] else []) @ shown_prefixes [] cs sched @ [concat (map chunk_text cs)]"
    using lfin by (simp add: u [of early sched cs])
  have c4: "\<exists>k \<le> length cs. last m = ?bot (concat (map chunk_text (take k cs)))"
    if "m \<in> set (handleSend_screens clock early sched cs st)" for m
  proof -
    from that consider "m = ?m2" | t where "t \<in> set (shown_prefixes [] cs sched)" "m = ?upd t"
      | "m = ?fin"
      by (auto simp add: u [of early sched cs] split: if_splits)
    then show ?thesis
    proof cases
      case 1
      then have "last m = ?bot (concat (map chunk_text (take 0 cs)))" by simp
      then show ?thesis by blast
    next
      case 2
      from shown_prefixes_set [OF 2(1)] obtain k where
        "k \<le> length cs" "t = concat (map chunk_text (take k cs))" by auto
      with 2(2) lu show ?thesis by auto
    next
      case 3
      with lfin have "last m = ?bot (concat (map chunk_text (take (length cs) cs)))" by simp
      then show ?thesis by blast
    qed
  qed
  let ?all = "handleSend_screens clock True (replicate (length cs) True) cs st"
  have ua: "?all = [?m2] @
      map ?upd (map (\<lambda>k. concat (map chunk_text (take (Suc k) cs))) [0..<length cs]) @ [?fin]"
    using u [of True "replicate (length cs) True" cs] shown_prefixes_all [of "[]" cs]
    by simp
  have c5: "length ?all = length cs + 2"
    by (simp add: ua)
  have c6: "last (?all ! Suc k) = ?bot (concat (map chunk_text (take (Suc k) cs)))"
    if "k < length cs" for k
  proof -
    have "?all ! Suc k = ?upd (concat (map chunk_text (take (Suc k) cs)))"
      using that by (simp add: ua nth_append)
    then show ?thesis by (simp only: lu)
  qed
  from c1 c2 c3 c4 c5 c6 show ?thesis
    by blast
qed

theorem handleSend_screens_texts_witness:
  "msg_text (last (handleSend_screens (\<lambda>k. 1700000000000 + k) True [True, True, True]
      [Some ''Hel'', Some ''lo, '', Some ''how can I help?'']
      ((initial_chat 1699999999000)\<lparr>inputValue := ''Hi''\<rparr>) ! 1)) = ''Hel'' \<and>
   msg_text (last (handleSend_screens (\<lambda>k. 1700000000000 + k) True [True, True, True]
      [Some ''Hel'', Some ''lo, '', Some ''how can I help?'']
      ((initial_chat 1699999999000)\<lparr>inputValue := ''Hi''\<rparr>) ! 2)) = ''Hello, '' \<and>
   msg_text (last (last (handleSend_screens (\<lambda>k. 1700000000000 + k) True [True, True, True]
      [Some ''Hel'', Some ''lo, '', Some ''how can I help?'']
      ((initial_chat 1699999999000)\<lparr>inputValue := ''Hi''\<rparr>)))) = ''Hello, how can I help?'' \<and>
   map (msg_text \<circ> last)
     (handleSend_screens (\<lambda>k. 1700000000000 + k) False [False, True]
        [Some ''Hel'', Some ''lo, '', Some ''how can I help?'']
        ((initial_chat 1699999999000)\<lparr>inputValue := ''Hi''\<rparr>))
     = [''Hello, '', ''Hello, how can I help?'']"
  (is "msg_text (last (handleSend_screens ?c True ?all ?cs ?st ! 1)) = _ \<and> _")
proof -
  have p: "trim (inputValue ?st) \<noteq> []" "\<not> isStreaming ?st"
    by (simp_all add: trim_Hi initial_chat_def)
  note t = handleSend_screens_texts [where clock = ?c and cs = ?cs, OF p]
  note per_chunk = t [where early = True and sched = ?all, THEN conjunct2, THEN conjunct2, THEN conjunct2,
                      THEN conjunct2, THEN conjunct2, rule_format]
  from per_chunk [of 0]
  have a: "msg_text (last (handleSend_screens ?c True ?all ?cs ?st ! 1)) = ''Hel''"
    by (simp add: chunk_text_def)
  from per_chunk [of 1]
  have b: "msg_text (last (handleSend_screens ?c True ?all ?cs ?st ! 2)) = ''Hello, ''"
    by (simp add: chunk_text_def numeral_2_eq_2)
  from t [where early = True and sched = ?all, THEN conjunct2, THEN conjunct1]
  have c: "msg_text (last (last (handleSend_screens ?c True ?all ?cs ?st))) = ''Hello, how can I help?''"
    by (simp add: chunk_text_def)
  from t [where early = False and sched = "[False, True]", THEN conjunct2, THEN conjunct2, THEN conjunct1]
  have d: "map (msg_text \<circ> last) (handleSend_screens ?c False [False, True] ?cs ?st)
     = [''Hello, '', ''Hello, how can I help?'']"
    by (simp add: chunk_text_def)
  from a b c d show ?thesis by simp
qed

section \<open>A failing chat stream\<close>

lemma error_update_nonempty:
  "prev \<noteq> [] \<Longrightarrow>
   error_update txt t1 t2 prev =
     Some ((if role (last prev) = model \<and> msg_text (last prev) = [] then butlast prev else prev) @
           [\<lparr>msg_id = show_nat t1, role = model, msg_text = txt, timestamp = t2\<rparr>])"
  by (simp add: error_update_def Let_def slice_butlast last_conv_nth)

lemma nth_last_Cons: "(x # xs) ! length xs = last (x # xs)"
  by (simp add: last_conv_nth)

lemma trace_nth: "([a, b] @ ups @ rest) ! (1 + length ups) = (b # ups) ! length ups"
proof -
  have "([a, b] @ ups @ rest) ! (1 + length ups) = ((b # ups) @ rest) ! length ups"
    by simp
  also have "\<dots> = (b # ups) ! length ups"
    by (simp only: nth_append length_Cons lessI if_True)
  finally show ?thesis .
qed

lemma trace_last: "last ([a, b] @ ups @ [z]) = z"
  by simp

lemma trace_length: "length ([a, b] @ ups @ [z]) = 3 + length ups"
  by simp

text \<open>
  Claim C8. For every chat stream that fails with an error \<open>e\<close>, after any number of
  chunks: the text of the error message is chosen by \<open>isRateLimitError e\<close>; the
  update of the \<^verbatim>\<open>catch\<close> is always carried out; if the last message of the list at
  that moment is a model message with empty text (the placeholder of this request, which
  is the last message and is empty exactly when the chunks so far concatenate to the
  empty string), that message is replaced by the error message, and otherwise the error
  message is appended after the existing messages. The same holds for the update on any
  non-empty list.
\<close>

theorem handleSend_stream_failure:
  assumes "trim (inputValue st) \<noteq> []" and "\<not> isStreaming st" and "failure stream = Some e"
  shows
    "length (handleSend_messages clock stream st) = 3 + length (chunks stream) \<and>
     last (handleSend_messages clock stream st ! (1 + length (chunks stream))) =
       \<lparr>msg_id = botMsgId_of clock, role = model,
         msg_text = concat (map chunk_text (chunks stream)), timestamp = clock 3\<rparr> \<and>
     messages (handleSend clock stream st) =
       (if role (last (handleSend_messages clock stream st ! (1 + length (chunks stream)))) = model \<and>
           msg_text (last (handleSend_messages clock stream st ! (1 + length (chunks stream)))) = []
        then butlast (handleSend_messages clock stream st ! (1 + length (chunks stream)))
        else handleSend_messages clock stream st ! (1 + length (chunks stream))) @
       [\<lparr>msg_id = show_nat (clock 4), role = model,
          msg_text =
            (if isRateLimitError e
             then [CHR 0xE2, CHR 0x9A, CHR 0xA0, CHR 0xEF, CHR 0xB8, CHR 0x8F] @
                  '' usage limits exceeded. Please wait a minute before trying again.''
             else ''Sorry, I encountered an error. Please try again.''),
          timestamp = clock 5\<rparr>] \<and>
     (\<forall>txt t1 t2 prev. prev \<noteq> [] \<longrightarrow>
        error_update txt t1 t2 prev =
          Some ((if role (last prev) = model \<and> msg_text (last prev) = []
                 then butlast prev else prev) @
                [\<lparr>msg_id = show_nat t1, role = model, msg_text = txt, timestamp = t2\<rparr>])) \<and>
     inputValue (handleSend clock stream st) = [] \<and>
     \<not> isStreaming (handleSend clock stream st)"
proof -
  let ?m1 = "messages st @ [userMsg_of clock st]"
  let ?b = "botMsgId_of clock"
  let ?m2 = "?m1 @ [\<lparr>msg_id = ?b, role = model, msg_text = [], timestamp = clock 3\<rparr>]"
  let ?ups = "stream_loop ?b [] (chunks stream) ?m2"
  let ?m3 = "last (?m2 # ?ups)"
  let ?err = "\<lparr>msg_id = show_nat (clock 4), role = model,
                 msg_text = errorText_of e, timestamp = clock 5\<rparr>"
  let ?m4 = "(if role (last ?m3) = model \<and> msg_text (last ?m3) = [] then butlast ?m3 else ?m3) @ [?err]"
  have m3: "?m3 = (if chunks stream = [] then ?m1
                   else stream_update ?b (concat (map chunk_text (chunks stream))) ?m1) @
       [\<lparr>msg_id = ?b, role = model,
          msg_text = concat (map chunk_text (chunks stream)), timestamp = clock 3\<rparr>]"
    by (rule last_updates)
  then have ne: "?m3 \<noteq> []"
    by (simp only: snoc_eq_iff_butlast not_False_eq_True append_is_Nil_conv not_Cons_self2 simp_thms)
  have upd: "error_update (errorText_of e) (clock 4) (clock 5) ?m3 = Some ?m4"
    using ne by (rule error_update_nonempty)
  have g: "\<not> (trim (inputValue st) = [] \<or> isStreaming st)"
    using assms by simp
  have tr: "handleSend_messages clock stream st = [?m1, ?m2] @ ?ups @ [?m4]"
    unfolding handleSend_messages_def Let_def
    by (simp only: g if_False assms(3) option.case upd)
  have idx: "length ?ups = length (chunks stream)"
    by (rule stream_loop_length)
  have "length (handleSend_messages clock stream st) = 3 + length ?ups"
    unfolding tr by (rule trace_length)
  then have len: "length (handleSend_messages clock stream st) = 3 + length (chunks stream)"
    by (simp only: idx)
  have "handleSend_messages clock stream st ! (1 + length ?ups) = ?m3"
    unfolding tr by (simp only: trace_nth nth_last_Cons)
  then have prev: "handleSend_messages clock stream st ! (1 + length (chunks stream)) = ?m3"
    by (simp only: idx)
  have lastm3: "last ?m3 = \<lparr>msg_id = ?b, role = model,
          msg_text = concat (map chunk_text (chunks stream)), timestamp = clock 3\<rparr>"
    by (simp only: m3 last_snoc)
  have "last (handleSend_messages clock stream st) = ?m4"
    unfolding tr by (rule trace_last)
  then have fin: "messages (handleSend clock stream st) = ?m4"
    using assms by (simp add: handleSend_def)
  have rest: "inputValue (handleSend clock stream st) = [] \<and>
     \<not> isStreaming (handleSend clock stream st)"
    using assms by (simp add: handleSend_def)
  have etxt: "errorText_of e = (if isRateLimitError e
             then [CHR 0xE2, CHR 0x9A, CHR 0xA0, CHR 0xEF, CHR 0xB8, CHR 0x8F] @
                  '' usage limits exceeded. Please wait a minute before trying again.''
             else ''Sorry, I encountered an error. Please try again.'')"
    by (simp add: errorText_of_def)
  have fin': "messages (handleSend clock stream st) =
       (if role (last ?m3) = model \<and> msg_text (last ?m3) = [] then butlast ?m3 else ?m3) @
       [\<lparr>msg_id = show_nat (clock 4), role = model,
          msg_text =
            (if isRateLimitError e
             then [CHR 0xE2, CHR 0x9A, CHR 0xA0, CHR 0xEF, CHR 0xB8, CHR 0x8F] @
                  '' usage limits exceeded. Please wait a minute before trying again.''
             else ''Sorry, I encountered an error. Please try again.''),
          timestamp = clock 5\<rparr>]"
    using fin by (simp only: etxt)
  show ?thesis
    unfolding prev
  proof (intro conjI allI impI)
    show "length (handleSend_messages clock stream st) = 3 + length (chunks stream)"
      by (rule len)
    show "last ?m3 = \<lparr>msg_id = ?b, role = model,
          msg_text = concat (map chunk_text (chunks stream)), timestamp = clock 3\<rparr>"
      by (rule lastm3)
    show "messages (handleSend clock stream st) =
       (if role (last ?m3) = model \<and> msg_text (last ?m3) = [] then butlast ?m3 else ?m3) @
       [\<lparr>msg_id = show_nat (clock 4), role = model,
          msg_text =
            (if isRateLimitError e
             then [CHR 0xE2, CHR 0x9A, CHR 0xA0, CHR 0xEF, CHR 0xB8, CHR 0x8F] @
                  '' usage limits exceeded. Please wait a minute before trying again.''
             else ''Sorry, I encountered an error. Please try again.''),
          timestamp = clock 5\<rparr>]"
      by (rule fin')
    show "error_update t t1 t2 prev =
          Some ((if role (last prev) = model \<and> msg_text (last prev) = []
                 then butlast prev else prev) @
                [\<lparr>msg_id = show_nat t1, role = model, msg_text = t, timestamp = t2\<rparr>])"
      if "prev \<noteq> []" for t t1 t2 prev
      using that by (rule error_update_nonempty)
    show "inputValue (handleSend clock stream st) = []"
      using rest by (rule conjunct1)
    show "\<not> isStreaming (handleSend clock stream st)"
      using rest by (rule conjunct2)
  qed
qed

theorem handleSend_stream_failure_witness:
  "messages (handleSend (\<lambda>k. 1700000000000 + k)
      \<lparr>chunks = [], failure = Some (ETruthy (StatusNum 429) ''ApiError'')\<rparr>
      \<lparr>messages = [], inputValue = ''Hi'', isStreaming = False\<rparr>) =
     [\<lparr>msg_id = ''1700000000000'', role = user, msg_text = ''Hi'', timestamp = 1700000000001\<rparr>,
      \<lparr>msg_id = ''1700000000004'', role = model,
        msg_text = [CHR 0xE2, CHR 0x9A, CHR 0xA0, CHR 0xEF, CHR 0xB8, CHR 0x8F] @
                   '' usage limits exceeded. Please wait a minute before trying again.'',
        timestamp = 1700000000005\<rparr>] \<and>
   messages (handleSend (\<lambda>k. 1700000000000 + k)
      \<lparr>chunks = [Some ''Hel''], failure = Some (ETruthy NoStatus ''TypeError: network error'')\<rparr>
      \<lparr>messages = [], inputValue = ''Hi'', isStreaming = False\<rparr>) =
     [\<lparr>msg_id = ''1700000000000'', role = user, msg_text = ''Hi'', timestamp = 1700000000001\<rparr>,
      \<lparr>msg_id = ''1700000000003'', role = model, msg_text = ''Hel'', timestamp = 1700000000003\<rparr>,
      \<lparr>msg_id = ''1700000000004'', role = model,
        msg_text = ''Sorry, I encountered an error. Please try again.'',
        timestamp = 1700000000005\<rparr>]"
  (is "messages (handleSend ?c ?s1 ?st) = ?r1 \<and> messages (handleSend ?c ?s2 ?st) = ?r2")
proof -
  have g: "trim (inputValue ?st) \<noteq> []" "\<not> isStreaming ?st"
    by (simp_all add: trim_Hi)
  have f1: "failure ?s1 = Some (ETruthy (StatusNum 429) ''ApiError'')"
    and f2: "failure ?s2 = Some (ETruthy NoStatus ''TypeError: network error'')"
    by simp_all
  have c1: "isRateLimitError (ETruthy (StatusNum 429) ''ApiError'')"
    and c2: "\<not> isRateLimitError (ETruthy NoStatus ''TypeError: network error'')"
    by (simp_all add: isRateLimitError_def)
  have n: "show_nat 1700000000004 = ''1700000000004''"
    by (simp add: show_nat.simps)
  have e1: "handleSend_messages ?c ?s1 ?st ! (1 + length (chunks ?s1)) =
     [\<lparr>msg_id = ''1700000000000'', role = user, msg_text = ''Hi'', timestamp = 1700000000001\<rparr>,
      \<lparr>msg_id = ''1700000000003'', role = model, msg_text = [], timestamp = 1700000000003\<rparr>]"
    by (simp add: handleSend_messages_def Let_def trim_Hi userMsg_of_def botMsgId_of_def
          show_nat.simps)
  have e2: "handleSend_messages ?c ?s2 ?st ! (1 + length (chunks ?s2)) =
     [\<lparr>msg_id = ''1700000000000'', role = user, msg_text = ''Hi'', timestamp = 1700000000001\<rparr>,
      \<lparr>msg_id = ''1700000000003'', role = model, msg_text = ''Hel'', timestamp = 1700000000003\<rparr>]"
    by (simp add: handleSend_messages_def Let_def trim_Hi userMsg_of_def botMsgId_of_def
          show_nat.simps stream_update_def chunk_text_def)
  note t1 = handleSend_stream_failure [where clock = ?c, OF g f1, THEN conjunct2, THEN conjunct2, THEN conjunct1]
  note t2 = handleSend_stream_failure [where clock = ?c, OF g f2, THEN conjunct2, THEN conjunct2, THEN conjunct1]
  from t1 have r1: "messages (handleSend ?c ?s1 ?st) = ?r1"
    unfolding e1 by (simp add: c1 n)
  from t2 have r2: "messages (handleSend ?c ?s2 ?st) = ?r2"
    unfolding e2 by (simp add: c2 n)
  from r1 r2 show ?thesis by (rule conjI)
qed

end
